theory Spec2Isabelle
  imports Complex_Main "HOL-Library.Char_ord" "HOL-Library.List_Lexorder"
begin

section \<open>Python values used by \<open>dash_nba_style_evolution.py\<close>\<close>

text \<open>
  Exceptions are values. Each constructor is the class of a Python exception the script
  can see, carrying its message: \<open>NameError\<close> (reading an unbound global),
  \<open>KeyError\<close> (a missing column or index label), \<open>IndexError\<close> (\<open>xs[0]\<close> on
  an empty list), \<open>TypeError\<close> (arithmetic on a string cell), \<open>ValueError\<close>
  (\<open>pd.concat\<close> of no frames, a chart over a missing column), \<open>ProviderError\<close> (anything
  the statistics endpoint raises) and \<open>StorageError\<close> (what a cache layer that lets
  its storage's failures out would raise). All of them are instances of Python's
  \<open>Exception\<close>.
\<close>

datatype exn =
    NameError string
  | KeyError string
  | IndexError string
  | TypeError string
  | ValueError string
  | ProviderError string
  | StorageError string

fun str_exn :: "exn \<Rightarrow> string" where
  "str_exn (NameError m) = m"
| "str_exn (KeyError m) = m"
| "str_exn (IndexError m) = m"
| "str_exn (TypeError m) = m"
| "str_exn (ValueError m) = m"
| "str_exn (ProviderError m) = m"
| "str_exn (StorageError m) = m"

subsection \<open>\<open>str(int)\<close>, \<open>range\<close> with step \<open>-1\<close>, \<open>str.lower\<close>\<close>

definition digit :: "nat \<Rightarrow> char" where
  "digit d = ''0123456789'' ! (d mod 10)"

fun str_nat :: "nat \<Rightarrow> string" where
  "str_nat n = (if n < 10 then [digit n] else str_nat (n div 10) @ [digit (n mod 10)])"

declare str_nat.simps [simp del]

definition str_int :: "int \<Rightarrow> string" where
  "str_int i = (if i < 0 then CHR ''-'' # str_nat (nat (- i)) else str_nat (nat i))"

text \<open>\<open>range(start, stop, -1)\<close>: \<open>start, start - 1, ...\<close> while the value is above \<open>stop\<close>.\<close>

function range_down :: "int \<Rightarrow> int \<Rightarrow> int list" where
  "range_down start stop = (if stop < start then start # range_down (start - 1) stop else [])"
  by pat_completeness auto
termination
  by (relation "measure (\<lambda>(start, stop). nat (start - stop))") auto

declare range_down.simps [simp del]

text \<open>
  \<open>str.lower\<close> on the ASCII letters; every other byte is left as it is (the provider's
  column names are ASCII).
\<close>

definition lower_char :: "char \<Rightarrow> char" where
  "lower_char c =
     (case map_of (zip ''ABCDEFGHIJKLMNOPQRSTUVWXYZ'' ''abcdefghijklmnopqrstuvwxyz'') c of
        Some l \<Rightarrow> l
      | None \<Rightarrow> c)"

definition lower :: "string \<Rightarrow> string" where
  "lower s = map lower_char s"

section \<open>Season identifiers (\<open>main\<close>, lines 44-48)\<close>

text \<open>\<open>season = f"{year}-{str(year+1)[2:]}"\<close>\<close>

definition season_id :: "int \<Rightarrow> string" where
  "season_id year = str_int year @ ''-'' @ drop 2 (str_int (year + 1))"

text \<open>The loop \<open>for year in range(start, stop, -1): seasons.append(...)\<close>.\<close>

definition gen_seasons :: "int \<Rightarrow> int \<Rightarrow> string list" where
  "gen_seasons start stop = map season_id (range_down start stop)"

definition seasons :: "string list" where
  "seasons = gen_seasons 2024 1989"

text \<open>
  The format the specification names, written out: four decimal digits of the year, a
  dash, and the two decimal digits of \<open>(year + 1) mod 100\<close>.
\<close>

definition yyyy_yy :: "int \<Rightarrow> string" where
  "yyyy_yy y =
     [digit (nat y div 1000), digit (nat y div 100), digit (nat y div 10), digit (nat y),
      CHR ''-'',
      digit (nat ((y + 1) mod 100) div 10), digit (nat ((y + 1) mod 100))]"

text \<open>The year an identifier starts with: its first four characters read as decimal.\<close>

definition digit_val :: "char \<Rightarrow> int" where
  "digit_val c = int (of_char c) - 48"

definition year_of :: "string \<Rightarrow> int" where
  "year_of s = fold (\<lambda>c acc. 10 * acc + digit_val c) (take 4 s) 0"

section \<open>Tables (\<open>pandas.DataFrame\<close>)\<close>

text \<open>
  A numeric cell is an IEEE double seen from outside: a finite value, an infinity, or NaN
  (which is also pandas' marker of a missing value). Finite values are exact rationals:
  the rounding of a binary64 result is not modelled, and neither is the sign of zero.
  A cell of a table is a number or a Python string.
\<close>

datatype num = Fin rat | PInf | NInf | NaN

datatype cell = Num num | Str string

text \<open>
  A frame is its column labels and its rows; a row is its index label and its cells, in
  the order of the column labels. The provider's column labels are strings and pairwise
  distinct, and the model is of such frames: a cell is found under its label
  (\<open>cell_at\<close>), the first one where a label is repeated; a label with no cell reads as
  NaN. The columns the script computes with (\<open>gp\<close>, \<open>pts\<close>, \<open>fg3m\<close>,
  \<open>fg3a\<close>) are numeric columns of the provider; a column that mixes numbers and
  strings (pandas' object dtype, with Python's own arithmetic on its cells) is outside
  the model.
\<close>

record frame =
  columns :: "string list"
  rows :: "(nat \<times> cell list) list"

definition index :: "frame \<Rightarrow> nat list" where
  "index df = map fst (rows df)"

definition nrows :: "frame \<Rightarrow> nat" where
  "nrows df = length (rows df)"

text \<open>\<open>pd.DataFrame()\<close>\<close>

definition empty_frame :: frame where
  "empty_frame = \<lparr>columns = [], rows = []\<rparr>"

text \<open>\<open>df.empty\<close>: an axis of length 0.\<close>

definition is_empty :: "frame \<Rightarrow> bool" where
  "is_empty df = (columns df = [] \<or> rows df = [])"

definition cell_at :: "string list \<Rightarrow> cell list \<Rightarrow> string \<Rightarrow> cell" where
  "cell_at cols cells c = (case map_of (zip cols cells) c of Some v \<Rightarrow> v | None \<Rightarrow> Num NaN)"

text \<open>\<open>df[c]\<close>: the values of a column, \<open>KeyError\<close> when there is no such column.\<close>

definition column :: "frame \<Rightarrow> string \<Rightarrow> exn + cell list" where
  "column df c =
     (if c \<in> set (columns df)
      then Inr (map (\<lambda>r. cell_at (columns df) (snd r) c) (rows df))
      else Inl (KeyError c))"

text \<open>
  \<open>df[c] = v\<close> with a scalar \<open>v\<close>: every row gets \<open>v\<close> under \<open>c\<close>; a new label
  is appended after the existing ones.
\<close>

definition with_label :: "string list \<Rightarrow> string \<Rightarrow> string list" where
  "with_label cols c = (if c \<in> set cols then cols else cols @ [c])"

definition put_cell :: "string list \<Rightarrow> string \<Rightarrow> cell \<Rightarrow> cell list \<Rightarrow> cell list" where
  "put_cell cols c v cells =
     map (\<lambda>l. if l = c then v else cell_at cols cells l) (with_label cols c)"

definition setitem :: "frame \<Rightarrow> string \<Rightarrow> cell \<Rightarrow> frame" where
  "setitem df c v =
     \<lparr>columns = with_label (columns df) c,
      rows = map (\<lambda>r. (fst r, put_cell (columns df) c v (snd r))) (rows df)\<rparr>"

text \<open>
  \<open>df.loc[:, c] = series\<close> where the series was computed from \<open>df\<close> itself (same
  index, same length): row by row.
\<close>

definition set_column :: "frame \<Rightarrow> string \<Rightarrow> cell list \<Rightarrow> frame" where
  "set_column df c vs =
     \<lparr>columns = with_label (columns df) c,
      rows = map (\<lambda>(r, v). (fst r, put_cell (columns df) c v (snd r))) (zip (rows df) vs)\<rparr>"

text \<open>\<open>df[df[c] == v]\<close>: the rows whose cell under \<open>c\<close> equals \<open>v\<close>, labels kept.\<close>

definition select_eq :: "frame \<Rightarrow> string \<Rightarrow> cell \<Rightarrow> exn + frame" where
  "select_eq df c v =
     (case column df c of
        Inl e \<Rightarrow> Inl e
      | Inr col \<Rightarrow> Inr (df\<lparr>rows := map fst (filter (\<lambda>(r, x). x = v) (zip (rows df) col))\<rparr>))"

text \<open>
  \<open>pd.concat(frames, ignore_index=True)\<close>: the columns are the union of the frames'
  columns in the order of first appearance, the rows follow each other in the order of
  the frames, a cell a frame has no column for is NaN, and the index is reset to
  \<open>0, 1, ..., n - 1\<close>. \<open>pd.concat([])\<close> raises \<open>ValueError\<close>.
\<close>

fun add_new :: "string list \<Rightarrow> string list \<Rightarrow> string list" where
  "add_new acc [] = acc"
| "add_new acc (c # cs) = add_new (if c \<in> set acc then acc else acc @ [c]) cs"

definition union_columns :: "frame list \<Rightarrow> string list" where
  "union_columns fs = fold (\<lambda>f acc. add_new acc (columns f)) fs []"

definition reindex_rows :: "string list \<Rightarrow> frame \<Rightarrow> cell list list" where
  "reindex_rows cols f = map (\<lambda>r. map (cell_at (columns f) (snd r)) cols) (rows f)"

definition pd_concat :: "frame list \<Rightarrow> exn + frame" where
  "pd_concat fs =
     (if fs = [] then Inl (ValueError ''No objects to concatenate'')
      else let cols = union_columns fs;
               body = concat (map (reindex_rows cols) fs)
           in Inr \<lparr>columns = cols, rows = zip [0..<length body] body\<rparr>)"

subsection \<open>Arithmetic on cells and series\<close>

text \<open>IEEE division: \<open>x / 0\<close> is an infinity of the sign of \<open>x\<close>, \<open>0 / 0\<close> is NaN.\<close>

fun num_div :: "num \<Rightarrow> num \<Rightarrow> num" where
  "num_div NaN _ = NaN"
| "num_div _ NaN = NaN"
| "num_div (Fin a) (Fin b) =
     (if b = 0 then (if a = 0 then NaN else if 0 < a then PInf else NInf) else Fin (a / b))"
| "num_div (Fin a) _ = Fin 0"
| "num_div PInf (Fin b) = (if 0 \<le> b then PInf else NInf)"
| "num_div NInf (Fin b) = (if 0 \<le> b then NInf else PInf)"
| "num_div _ _ = NaN"

fun num_add :: "num \<Rightarrow> num \<Rightarrow> num" where
  "num_add NaN _ = NaN"
| "num_add _ NaN = NaN"
| "num_add (Fin a) (Fin b) = Fin (a + b)"
| "num_add PInf NInf = NaN"
| "num_add NInf PInf = NaN"
| "num_add PInf _ = PInf"
| "num_add _ PInf = PInf"
| "num_add NInf _ = NInf"
| "num_add _ NInf = NInf"

text \<open>Arithmetic with a string operand raises \<open>TypeError\<close>.\<close>

fun cell_div :: "cell \<Rightarrow> cell \<Rightarrow> exn + cell" where
  "cell_div (Num a) (Num b) = Inr (Num (num_div a b))"
| "cell_div _ _ = Inl (TypeError ''unsupported operand type(s) for /'')"

text \<open>The first error of a list of results, or all the values.\<close>

fun collect :: "(exn + 'a) list \<Rightarrow> exn + 'a list" where
  "collect [] = Inr []"
| "collect (Inl e # rs) = Inl e"
| "collect (Inr x # rs) = (case collect rs of Inl e \<Rightarrow> Inl e | Inr xs \<Rightarrow> Inr (x # xs))"

text \<open>\<open>a / b\<close> of two series of one frame: cell by cell.\<close>

definition series_div :: "cell list \<Rightarrow> cell list \<Rightarrow> exn + cell list" where
  "series_div xs ys = collect (map (\<lambda>(x, y). cell_div x y) (zip xs ys))"

text \<open>
  \<open>series.sum()\<close>: NaN cells are skipped (\<open>skipna\<close>), the empty sum is 0. A
  string cell is reported as the \<open>TypeError\<close> that the arithmetic on the sum raises.
\<close>

fun numeric :: "cell \<Rightarrow> exn + num" where
  "numeric (Num a) = Inr a"
| "numeric (Str s) = Inl (TypeError ''unsupported operand type(s) for +'')"

definition series_sum :: "cell list \<Rightarrow> exn + cell" where
  "series_sum xs =
     (case collect (map numeric xs) of
        Inl e \<Rightarrow> Inl e
      | Inr ns \<Rightarrow> Inr (Num (fold (\<lambda>x acc. num_add acc x) (filter (\<lambda>x. x \<noteq> NaN) ns) (Fin 0))))"

subsection \<open>Label lookup and grouping\<close>

text \<open>
  \<open>df.loc[labels, c]\<close>: for each label in turn, the cells under \<open>c\<close> of every row
  that carries this index label; \<open>KeyError\<close> for a label no row carries.
\<close>

definition loc_label :: "nat list \<Rightarrow> cell list \<Rightarrow> nat \<Rightarrow> exn + cell list" where
  "loc_label idx col l =
     (case filter (\<lambda>(i, v). i = l) (zip idx col) of
        [] \<Rightarrow> Inl (KeyError (str_nat l))
      | hits \<Rightarrow> Inr (map snd hits))"

definition loc :: "frame \<Rightarrow> nat list \<Rightarrow> string \<Rightarrow> exn + cell list" where
  "loc df labels c =
     (case column df c of
        Inl e \<Rightarrow> Inl e
      | Inr col \<Rightarrow>
          (case collect (map (loc_label (index df) col) labels) of
             Inl e \<Rightarrow> Inl e
           | Inr hits \<Rightarrow> Inr (concat hits)))"

text \<open>
  \<open>df.groupby('season')\<close>: one group per distinct key, the groups sorted by key. The
  keys are the strings \<open>main\<close> writes into the season column; a NaN key has no group.
  \<open>positions\<close> are the places of a group's rows in the frame.
\<close>

fun str_keys :: "cell list \<Rightarrow> string list" where
  "str_keys [] = []"
| "str_keys (Str s # cs) = s # str_keys cs"
| "str_keys (Num a # cs) = str_keys cs"

definition group_keys :: "cell list \<Rightarrow> string list" where
  "group_keys col = sort (remdups (str_keys col))"

definition positions :: "cell list \<Rightarrow> string \<Rightarrow> nat list" where
  "positions col k = filter (\<lambda>i. col ! i = Str k) [0..<length col]"

section \<open>The derived analytics (lines 137-140, 172-175, 199-201)\<close>

text \<open>
  \<open>filtered_df.loc[:, out] = filtered_df[a] / filtered_df[b]\<close>, the statement of lines
  140 and 175, on the frame \<open>filtered_df\<close>.
\<close>

definition per_game :: "frame \<Rightarrow> string \<Rightarrow> string \<Rightarrow> string \<Rightarrow> exn + frame" where
  "per_game filtered_df out a b =
     (case column filtered_df a of
        Inl e \<Rightarrow> Inl e
      | Inr xs \<Rightarrow>
          (case column filtered_df b of
             Inl e \<Rightarrow> Inl e
           | Inr ys \<Rightarrow>
               (case series_div xs ys of
                  Inl e \<Rightarrow> Inl e
                | Inr q \<Rightarrow> Inr (set_column filtered_df out q))))"

text \<open>
  The aggregation function of line 200, applied to the group of key \<open>k\<close>: \<open>x\<close> is the
  group's part of the \<open>fg3a\<close> column, with the index labels of the group's rows;
  \<open>combined_df.loc[x.index, 'gp']\<close> looks these labels up in the whole table.
\<close>

definition agg_group :: "frame \<Rightarrow> cell list \<Rightarrow> cell list \<Rightarrow> string \<Rightarrow> exn + (string \<times> cell)" where
  "agg_group df season_col fg3a k =
     (let pos = positions season_col k;
          x_values = map ((!) fg3a) pos;
          x_index = map ((!) (index df)) pos
      in case series_sum x_values of
           Inl e \<Rightarrow> Inl e
         | Inr attempts \<Rightarrow>
             (case loc df x_index ''gp'' of
                Inl e \<Rightarrow> Inl e
              | Inr gp \<Rightarrow>
                  (case series_sum gp of
                     Inl e \<Rightarrow> Inl e
                   | Inr games \<Rightarrow>
                       (case cell_div attempts games of
                          Inl e \<Rightarrow> Inl e
                        | Inr v \<Rightarrow> Inr (k, v)))))"

text \<open>
  \<open>combined_df.groupby('season', as_index=False).agg(fg3a_per_g=...).sort_values('season')\<close>
  (lines 199-201): one pair (season, rate) per group.
\<close>

definition season_avg :: "frame \<Rightarrow> exn + (string \<times> cell) list" where
  "season_avg df =
     (case column df ''season'' of
        Inl e \<Rightarrow> Inl e
      | Inr season_col \<Rightarrow>
          (case column df ''fg3a'' of
             Inl e \<Rightarrow> Inl e
           | Inr fg3a \<Rightarrow>
               (case collect (map (agg_group df season_col fg3a) (group_keys season_col)) of
                  Inl e \<Rightarrow> Inl e
                | Inr points \<Rightarrow> Inr (sort_key fst points))))"



section \<open>The state of a run\<close>

text \<open>
  What the script reads and writes: the statistics endpoint (its answer to a request for
  a season at a time) and the requests sent to it so far; the cache directory (per key,
  the time of storing and the stored table) and whether its storage works at a time; the
  clock, in seconds (only \<open>time.sleep\<close> advances it: a request takes no time in the
  model); what was printed; the \<open>DataFrame\<close> objects that are shared by
  reference (an address is a position in \<open>heap\<close>); and the module's global
  \<open>combined_df\<close>, which is unbound (\<open>None\<close> here), or bound to Python's \<open>None\<close>
  or to an object.
\<close>

datatype pyval = PyNone | Obj nat

datatype printed = Text string | Head frame

record world =
  provider :: "string \<Rightarrow> nat \<Rightarrow> exn + frame list"
  requests :: "string list"
  disk :: "string \<Rightarrow> (nat \<times> frame) option"
  disk_up :: "nat \<Rightarrow> bool"
  now :: nat
  stdout :: "printed list"
  heap :: "frame list"
  combined_df :: "pyval option"

definition py_print :: "string \<Rightarrow> world \<Rightarrow> world" where
  "py_print s w = w\<lparr>stdout := stdout w @ [Text s]\<rparr>"

text \<open>\<open>print(df.head())\<close>: the first five rows, not rendered as text.\<close>

definition print_head :: "frame \<Rightarrow> world \<Rightarrow> world" where
  "print_head df w = w\<lparr>stdout := stdout w @ [Head (df\<lparr>rows := take 5 (rows df)\<rparr>)]\<rparr>"

definition sleep :: "nat \<Rightarrow> world \<Rightarrow> world" where
  "sleep d w = w\<lparr>now := now w + d\<rparr>"

definition alloc :: "frame \<Rightarrow> world \<Rightarrow> nat \<times> world" where
  "alloc df w = (length (heap w), w\<lparr>heap := heap w @ [df]\<rparr>)"

section \<open>The season fetcher (lines 13-39)\<close>

text \<open>
  \<open>LeagueDashTeamStats(season=season).get_data_frames()\<close>: one request; the answer is
  an exception or a list of frames.
\<close>

definition call_provider :: "world \<Rightarrow> string \<Rightarrow> (exn + frame list) \<times> world" where
  "call_provider w season = (provider w season (now w), w\<lparr>requests := requests w @ [season]\<rparr>)"

text \<open>
  The \<open>try\<close> block (lines 26-35) on the answer: \<open>[0]\<close> raises \<open>IndexError\<close> on an
  empty list; the column names are lower-cased.
\<close>

definition try_block :: "exn + frame list \<Rightarrow> exn + frame" where
  "try_block response =
     (case response of
        Inl e \<Rightarrow> Inl e
      | Inr frames \<Rightarrow>
          (case frames of
             [] \<Rightarrow> Inl (IndexError ''list index out of range'')
           | data # _ \<Rightarrow> Inr (data\<lparr>columns := map lower (columns data)\<rparr>)))"

text \<open>The function body: the \<open>try\<close> block and the handler \<open>except Exception\<close>.\<close>

definition fetch_body :: "world \<Rightarrow> string \<Rightarrow> frame \<times> world" where
  "fetch_body w season =
     (case call_provider w season of
        (response, w1) \<Rightarrow>
          (case try_block response of
             Inr df \<Rightarrow> (df, w1)
           | Inl e \<Rightarrow>
               (empty_frame,
                py_print (''Error fetching data for season '' @ season @ '': '' @ str_exn e) w1)))"

subsection \<open>The cache layer\<close>

text \<open>
  Modelled from the spec: the lookup of the cache layer (the \<open>diskcache\<close> package is
  not among the sources). An entry is served when it is present and not older than the
  time-to-live. A storage that does not work is no error of the layer: nothing is found,
  and the caller computes.
\<close>

definition cache_lookup :: "nat \<Rightarrow> world \<Rightarrow> string \<Rightarrow> frame option" where
  "cache_lookup ttl w key =
     (if disk_up w (now w)
      then (case disk w key of
              None \<Rightarrow> None
            | Some (stored_at, v) \<Rightarrow> if now w \<le> stored_at + ttl then Some v else None)
      else None)"

text \<open>
  Modelled from the spec: storing in the cache layer (\<open>diskcache\<close>, not among the
  sources): the value is stored under the key with the current timestamp; a storage that
  does not work stores nothing.
\<close>

definition cache_store :: "world \<Rightarrow> string \<Rightarrow> frame \<Rightarrow> world" where
  "cache_store w key v =
     (if disk_up w (now w) then w\<lparr>disk := (disk w)(key \<mapsto> (now w, v))\<rparr> else w)"

text \<open>
  Modelled from the spec: the decorator \<open>cache.memoize(expire=ttl)\<close> (\<open>diskcache\<close>,
  not among the sources) as the spec's \<open>get_or_compute\<close>: look the key up; return a
  fresh entry without computing; otherwise compute, store, return. With a storage that
  does not work it always computes (the fallback of spec 4.1). The decorated function
  does not raise, so neither does the decorated call.
\<close>

definition memoize ::
  "nat \<Rightarrow> (world \<Rightarrow> string \<Rightarrow> frame \<times> world) \<Rightarrow> world \<Rightarrow> string \<Rightarrow> (exn + frame) \<times> world" where
  "memoize ttl f w key =
     (case cache_lookup ttl w key of
        Some v \<Rightarrow> (Inr v, w)
      | None \<Rightarrow> (case f w key of (v, w1) \<Rightarrow> (Inr v, cache_store w1 key v)))"

text \<open>\<open>@cache.memoize(expire=3600)\<close> on the function (lines 13-14).\<close>

definition fetch_nba_team_stats :: "world \<Rightarrow> string \<Rightarrow> (exn + frame) \<times> world" where
  "fetch_nba_team_stats = memoize 3600 fetch_body"

section \<open>The aggregation pipeline (\<open>main\<close>, lines 41-69)\<close>

text \<open>
  The loop of lines 54-60 over the seasons still to fetch. The fetcher is a parameter
  (the script passes \<open>fetch_nba_team_stats\<close>). Each call returns a table object of
  its own, so the assignment of line 58 is an update of that table only.
\<close>

fun fetch_loop ::
  "(world \<Rightarrow> string \<Rightarrow> (exn + frame) \<times> world) \<Rightarrow> string list \<Rightarrow> frame list \<Rightarrow> world
   \<Rightarrow> (exn + frame list) \<times> world" where
  "fetch_loop fetch [] all_team_stats w = (Inr all_team_stats, w)"
| "fetch_loop fetch (season # rest) all_team_stats w =
     (case fetch (py_print (''Fetching data for season: '' @ season) w) season of
        (Inl e, w1) \<Rightarrow> (Inl e, w1)
      | (Inr team_stats, w1) \<Rightarrow>
          fetch_loop fetch rest
            (if \<not> is_empty team_stats
             then all_team_stats @ [setitem team_stats ''season'' (Str season)]
             else all_team_stats)
            (sleep 2 w1))"

text \<open>
  \<open>main\<close> for a list of seasons: the banner of line 50 (\<open>seasons[0]\<close> raises
  \<open>IndexError\<close> on an empty list), the loop, and lines 63-69.
\<close>

definition main_with ::
  "(world \<Rightarrow> string \<Rightarrow> (exn + frame) \<times> world) \<Rightarrow> string list \<Rightarrow> world \<Rightarrow> (exn + unit) \<times> world" where
  "main_with fetch ss w =
     (case ss of
        [] \<Rightarrow> (Inl (IndexError ''list index out of range''), w)
      | first # _ \<Rightarrow>
          (case fetch_loop fetch ss []
                  (py_print (''Fetching data for '' @ str_nat (length ss) @ '' seasons from ''
                             @ first @ '' to '' @ last ss) w) of
             (Inl e, w1) \<Rightarrow> (Inl e, w1)
           | (Inr all_team_stats, w1) \<Rightarrow>
               (if all_team_stats \<noteq> []
                then (case pd_concat all_team_stats of
                        Inl e \<Rightarrow> (Inl e, w1)
                      | Inr df \<Rightarrow>
                          (case alloc df w1 of
                             (a, w2) \<Rightarrow>
                               (Inr (),
                                print_head df
                                  (py_print (''Successfully fetched data for ''
                                             @ str_nat (length all_team_stats) @ '' seasons'')
                                     (w2\<lparr>combined_df := Some (Obj a)\<rparr>)))))
                else (Inr (), py_print ''No data fetched.'' w1))))"

section \<open>The script (lines 71-75 and 270-271)\<close>

text \<open>
  A process starts with nothing printed, no object and no global \<open>combined_df\<close>: no
  statement of the module binds the name before \<open>main\<close> does.
\<close>

definition fresh_process :: "world \<Rightarrow> world" where
  "fresh_process w = w\<lparr>stdout := [], heap := [], combined_df := None\<rparr>"

text \<open>
  How a run ends: the dashboard is served from the table at an address (\<open>app.run\<close>),
  the script ends after its last statement, or an exception reaches the top level.
\<close>

datatype outcome = Serving nat | Exited | Crashed exn

text \<open>
  \<open>main()\<close>, then the test \<open>combined_df is not None\<close> of line 75: reading an
  unbound global raises \<open>NameError\<close>. Loading the module builds the cache handle
  (line 11), which is no step of the model: the cache layer of the spec has no failure
  of its own. The fetcher and the seasons are parameters; \<open>script\<close> is the
  script as written. Building the layout (lines 79-120) only reads the season column of
  a table that has it and has a row; it is not modelled.
\<close>

definition script_with ::
  "(world \<Rightarrow> string \<Rightarrow> (exn + frame) \<times> world) \<Rightarrow> string list \<Rightarrow> world \<Rightarrow> outcome \<times> world" where
  "script_with fetch ss w0 =
     (case main_with fetch ss (fresh_process w0) of
        (Inl e, w1) \<Rightarrow> (Crashed e, w1)
      | (Inr u, w1) \<Rightarrow>
          (case combined_df w1 of
             None \<Rightarrow> (Crashed (NameError ''name combined_df is not defined''), w1)
           | Some PyNone \<Rightarrow> (Exited, py_print ''No data available to create dashboard'' w1)
           | Some (Obj a) \<Rightarrow> (Serving a, w1)))"

definition script :: "world \<Rightarrow> outcome \<times> world" where
  "script = script_with fetch_nba_team_stats seasons"

section \<open>The dashboard's callbacks (lines 127-267)\<close>

text \<open>
  Reading the global \<open>combined_df\<close> inside a callback. An address outside the heap does
  not occur in a run; the model answers it with an error.
\<close>

definition read_combined_df :: "world \<Rightarrow> exn + frame" where
  "read_combined_df w =
     (case combined_df w of
        None \<Rightarrow> Inl (NameError ''name combined_df is not defined'')
      | Some PyNone \<Rightarrow> Inl (TypeError ''NoneType object is not subscriptable'')
      | Some (Obj a) \<Rightarrow>
          (if a < length (heap w) then Inr (heap w ! a)
           else Inl (NameError ''no object at this address'')))"

text \<open>
  A chart: its title and the two series it draws. \<open>px.bar\<close> and \<open>px.scatter\<close> raise
  \<open>ValueError\<close> for a column the frame does not have.
\<close>

record figure =
  title :: string
  x_values :: "cell list"
  y_values :: "cell list"

definition chart :: "frame \<Rightarrow> string \<Rightarrow> string \<Rightarrow> string \<Rightarrow> exn + figure" where
  "chart df x y t =
     (case column df x of
        Inl e \<Rightarrow> Inl (ValueError x)
      | Inr xv \<Rightarrow>
          (case column df y of
             Inl e \<Rightarrow> Inl (ValueError y)
           | Inr yv \<Rightarrow> Inr \<lparr>title = t, x_values = xv, y_values = yv\<rparr>))"

text \<open>
  The common shape of \<open>update_points_graph\<close> and \<open>update_threes_graph\<close>:
  \<open>combined_df[combined_df['season'] == selected_season]\<close> is a new object, \<open>.copy()\<close>
  another one, bound to \<open>filtered_df\<close>; the assignment through \<open>.loc\<close> updates the
  object \<open>filtered_df\<close> refers to; the chart is drawn from it.
\<close>

definition per_game_graph ::
  "string \<Rightarrow> string \<Rightarrow> string \<Rightarrow> string \<Rightarrow> world \<Rightarrow> (exn + figure) \<times> world" where
  "per_game_graph out a t selected_season w =
     (case read_combined_df w of
        Inl e \<Rightarrow> (Inl e, w)
      | Inr df \<Rightarrow>
          (case select_eq df ''season'' (Str selected_season) of
             Inl e \<Rightarrow> (Inl e, w)
           | Inr selected \<Rightarrow>
               (case alloc selected w of
                  (tmp, w1) \<Rightarrow>
                    (case alloc (heap w1 ! tmp) w1 of
                       (filtered_df, w2) \<Rightarrow>
                         (case per_game (heap w2 ! filtered_df) out a ''gp'' of
                            Inl e \<Rightarrow> (Inl e, w2)
                          | Inr updated \<Rightarrow>
                              (chart updated ''team_name'' out (t @ selected_season),
                               w2\<lparr>heap := (heap w2)[filtered_df := updated]\<rparr>))))))"

definition update_points_graph :: "string \<Rightarrow> world \<Rightarrow> (exn + figure) \<times> world" where
  "update_points_graph =
     per_game_graph ''pts_per_g'' ''pts'' ''Team Points Per Game - ''"

definition update_threes_graph :: "string \<Rightarrow> world \<Rightarrow> (exn + figure) \<times> world" where
  "update_threes_graph =
     per_game_graph ''fg3_per_g'' ''fg3m'' ''Team Three Pointers Made Per Game - ''"

text \<open>
  \<open>update_threes_trend\<close>: the chart of \<open>season_avg\<close>; the selected season is not
  used.
\<close>

definition update_threes_trend :: "string \<Rightarrow> world \<Rightarrow> (exn + figure) \<times> world" where
  "update_threes_trend selected_season w =
     (case read_combined_df w of
        Inl e \<Rightarrow> (Inl e, w)
      | Inr df \<Rightarrow>
          (case season_avg df of
             Inl e \<Rightarrow> (Inl e, w)
           | Inr points \<Rightarrow>
               (Inr \<lparr>title = ''Evolution of NBA 3-Point Attempts Per Game'',
                     x_values = map (\<lambda>p. Str (fst p)) points,
                     y_values = map snd points\<rparr>, w)))"

text \<open>
  \<open>export_data\<close>: nothing for a falsy click count (\<open>None\<close> or 0); otherwise the file
  name, the header (the column names) and one record per row, without the index
  (\<open>to_csv(index=False)\<close>). Quoting and number formatting are not modelled.
\<close>

definition export_data ::
  "int option \<Rightarrow> world \<Rightarrow> (exn + (string \<times> string list \<times> cell list list) option) \<times> world" where
  "export_data n_clicks w =
     (if n_clicks = None \<or> n_clicks = Some 0 then (Inr None, w)
      else (case read_combined_df w of
              Inl e \<Rightarrow> (Inl e, w)
            | Inr df \<Rightarrow>
                (Inr (Some (''nba_stats.csv'', columns df, reindex_rows (columns df) df)), w)))"

section \<open>Notions used in the statements\<close>

subsection \<open>What the loop of \<open>main\<close> is to produce\<close>

text \<open>
  The tables the calls of the loop return, each with the season it was asked for, up to
  the first call that raises.
\<close>

fun fetched ::
  "(world \<Rightarrow> string \<Rightarrow> (exn + frame) \<times> world) \<Rightarrow> string list \<Rightarrow> world \<Rightarrow> (string \<times> frame) list" where
  "fetched fetch [] w = []"
| "fetched fetch (season # rest) w =
     (case fetch (py_print (''Fetching data for season: '' @ season) w) season of
        (Inl e, w1) \<Rightarrow> []
      | (Inr team_stats, w1) \<Rightarrow> (season, team_stats) # fetched fetch rest (sleep 2 w1))"

text \<open>The non-empty ones among them, and these with their season written into a column.\<close>

definition kept :: "(string \<times> frame) list \<Rightarrow> (string \<times> frame) list" where
  "kept results = filter (\<lambda>r. \<not> is_empty (snd r)) results"

definition stamped :: "(string \<times> frame) list \<Rightarrow> frame list" where
  "stamped results = map (\<lambda>r. setitem (snd r) ''season'' (Str (fst r))) (kept results)"

subsection \<open>States without data, fetching without the cache\<close>

text \<open>
  A state in which no season has data: the storage works, every answer of the provider
  fails in the \<open>try\<close> block or is an empty table, and every table in the cache is
  empty.
\<close>

definition no_data :: "world \<Rightarrow> bool" where
  "no_data w =
     ((\<forall>t. disk_up w t)
      \<and> (\<forall>s t. case try_block (provider w s t) of Inl e \<Rightarrow> True | Inr df \<Rightarrow> is_empty df)
      \<and> (\<forall>k. case disk w k of None \<Rightarrow> True | Some entry \<Rightarrow> is_empty (snd entry)))"


subsection \<open>The start of the loop, exceptions of a fetcher\<close>

text \<open>
  The state in which the loop of \<open>main\<close> starts: after the banner of line 50.
\<close>

definition loop_start :: "string list \<Rightarrow> world \<Rightarrow> world" where
  "loop_start ss w =
     (case ss of
        [] \<Rightarrow> w
      | first # _ \<Rightarrow>
          py_print (''Fetching data for '' @ str_nat (length ss) @ '' seasons from ''
                    @ first @ '' to '' @ last ss) w)"


section \<open>Example inputs\<close>

text \<open>A provider table of three teams, with upper-case column names as the endpoint sends them.\<close>

definition three_teams :: frame where
  "three_teams =
     \<lparr>columns = [''TEAM_NAME'', ''GP'', ''PTS'', ''FG3M'', ''FG3A''],
      rows = [(0, [Str ''Hawks'', Num (Fin 10), Num (Fin 82), Num (Fin 30), Num (Fin 20)]),
              (1, [Str ''Celtics'', Num (Fin 0), Num (Fin 82), Num (Fin 0), Num (Fin 30)]),
              (2, [Str ''Nets'', Num (Fin 0), Num (Fin 0), Num (Fin 5), Num (Fin 7)])]\<rparr>"

text \<open>
  A world at time 0 with an empty, working cache, whose provider answers the season
  \<open>2023-24\<close> with \<open>three_teams\<close> and fails for every other season.
\<close>

definition demo_world :: world where
  "demo_world =
     \<lparr>provider = (\<lambda>season t. if season = ''2023-24'' then Inr [three_teams]
                               else Inl (ProviderError ''timeout'')),
      requests = [],
      disk = (\<lambda>key. None),
      disk_up = (\<lambda>t. True),
      now = 0,
      stdout = [],
      heap = [],
      combined_df = None\<rparr>"

text \<open>The combined table of a run over the seasons 2023-24 and 2022-23 in \<open>demo_world\<close>.\<close>

definition demo_combined :: frame where
  "demo_combined =
     \<lparr>columns = [''team_name'', ''gp'', ''pts'', ''fg3m'', ''fg3a'', ''season''],
      rows = [(0, [Str ''Hawks'', Num (Fin 10), Num (Fin 82), Num (Fin 30), Num (Fin 20), Str ''2023-24'']),
              (1, [Str ''Celtics'', Num (Fin 0), Num (Fin 82), Num (Fin 0), Num (Fin 30), Str ''2023-24'']),
              (2, [Str ''Nets'', Num (Fin 0), Num (Fin 0), Num (Fin 5), Num (Fin 7), Str ''2023-24''])]\<rparr>"

text \<open>The state of the dashboard after the run of \<open>demo_world\<close>: one object, the combined table.\<close>

definition serving_world :: world where
  "serving_world = demo_world\<lparr>heap := [demo_combined], combined_df := Some (Obj 0)\<rparr>"








section \<open>Verified properties\<close>

subsection \<open>The season sequence\<close>

lemma range_down_upto: "range_down start stop = rev [stop + 1..start]"
proof (induction start stop rule: range_down.induct)
  case (1 start stop)
  show ?case
  proof (cases "stop < start")
    case True
    then have "[stop + 1..start] = [stop + 1..start - 1] @ [start]"
      by (simp add: upto_rec2)
    with True "1" show ?thesis
      by (simp add: range_down.simps [of start stop])
  next
    case False
    then show ?thesis
      by (simp add: range_down.simps [of start stop])
  qed
qed

lemma digit_mod: "digit (n mod 10) = digit n"
  by (simp add: digit_def)

lemma digit_cong: "a mod 10 = b mod 10 \<Longrightarrow> digit a = digit b"
  by (simp add: digit_def)

lemma str_nat_small: "n < 10 \<Longrightarrow> str_nat n = [digit n]"
  by (simp add: str_nat.simps[of n])

lemma str_nat_step: "10 \<le> n \<Longrightarrow> str_nat n = str_nat (n div 10) @ [digit n]"
  by (simp add: str_nat.simps[of n] digit_mod)

lemma str_nat_4:
  assumes "1000 \<le> n" "n < 10000"
  shows "str_nat n = [digit (n div 1000), digit (n div 100), digit (n div 10), digit n]"
proof -
  have b: "n div 10 div 10 = n div 100" "n div 100 div 10 = n div 1000"
    by (simp_all add: div_mult2_eq[symmetric])
  have "str_nat n = str_nat (n div 10) @ [digit n]"
    using assms by (intro str_nat_step) simp
  also have "str_nat (n div 10) = str_nat (n div 100) @ [digit (n div 10)]"
    using assms str_nat_step[of "n div 10"] by (simp add: b)
  also have "str_nat (n div 100) = str_nat (n div 1000) @ [digit (n div 100)]"
    using assms str_nat_step[of "n div 100"] by (simp add: b)
  also have "str_nat (n div 1000) = [digit (n div 1000)]"
    using assms by (intro str_nat_small) simp
  finally show ?thesis by simp
qed

lemma tens_digit: "digit (m mod 100 div 10) = digit (m div 10)"
proof (rule digit_cong)
  have "m mod 100 = 10 * (m div 10 mod 10) + m mod 10"
    using mod_mult2_eq[of m 10 10] by simp
  then show "m mod 100 div 10 mod 10 = m div 10 mod 10" by simp
qed

lemma units_digit: "digit (m mod 100) = digit m"
  by (rule digit_cong) (simp add: mod_mod_cancel)

lemma nat_succ_mod: "nat ((int n + 1) mod 100) = (n + 1) mod 100"
proof -
  have "int n + 1 = int (n + 1)" by simp
  then have "(int n + 1) mod 100 = int ((n + 1) mod 100)"
    by (simp only: zmod_int of_nat_numeral)
  then show ?thesis by (simp only: nat_int)
qed

text \<open>For every four-digit year the f-string of line 47 produces the specified format.\<close>

lemma season_id_yyyy_yy:
  assumes "1000 \<le> y" "y < 9999"
  shows "season_id y = yyyy_yy y"
proof -
  define n where "n = nat y"
  have y: "y = int n" and n: "1000 \<le> n" "n < 9999"
    using assms by (auto simp: n_def)
  have s1: "str_nat n = [digit (n div 1000), digit (n div 100), digit (n div 10), digit n]"
    using n by (intro str_nat_4) auto
  have s2: "str_nat (n + 1) =
      [digit ((n + 1) div 1000), digit ((n + 1) div 100), digit ((n + 1) div 10), digit (n + 1)]"
    using n by (intro str_nat_4) auto
  have n1: "nat (int n + 1) = n + 1" by simp
  have i1: "str_int (int n) = str_nat n" and i2: "str_int (int n + 1) = str_nat (n + 1)"
    by (simp_all add: str_int_def n1)
  have "season_id (int n) = str_nat n @ ''-'' @ drop 2 (str_nat (n + 1))"
    by (simp only: season_id_def i1 i2)
  also have "\<dots> = [digit (n div 1000), digit (n div 100), digit (n div 10), digit n, CHR ''-'',
      digit ((n + 1) div 10), digit (n + 1)]"
    by (simp only: s1 s2) simp
  also have "\<dots> = yyyy_yy (int n)"
    by (simp only: yyyy_yy_def nat_int nat_succ_mod tens_digit units_digit)
  finally show ?thesis by (simp only: y)
qed

lemma seasons_spec: "seasons = map yyyy_yy (rev [1990..2024])"
  unfolding seasons_def gen_seasons_def range_down_upto
  by (simp add: season_id_yyyy_yy)

lemma year_of_yyyy_yy: "map year_of (map yyyy_yy (rev [1990..2024])) = rev [1990..2024]"
  by (simp add: upto_rec_numeral yyyy_yy_def year_of_def digit_val_def digit_def)

lemma seasons_years: "map year_of seasons = rev [1990..2024]"
  by (simp only: seasons_spec year_of_yyyy_yy)

lemma seasons_distinct: "distinct seasons"
proof -
  have "distinct (map year_of seasons)"
    by (simp only: seasons_years distinct_rev distinct_upto)
  then show ?thesis
    by (simp add: distinct_map)
qed

lemma seasons_ends: "hd seasons = ''2024-25'' \<and> last seasons = ''1990-91''"
  unfolding seasons_def gen_seasons_def range_down_upto
  by (simp add: upto_rec_numeral hd_map last_map hd_rev last_rev season_id_yyyy_yy yyyy_yy_def digit_def)

lemma years_descending: "sorted_wrt (>) (rev [1990..(2024::int)])"
  by (simp add: sorted_wrt_rev strict_sorted_iff flip: strict_sorted_iff)

text \<open>
  C3. The season identifiers generated by \<open>main\<close> (years 2024 down to 1990) are exactly
  the identifiers \<open>YYYY-YY\<close> of the years 2024, 2023, ..., 1990 with the suffix
  \<open>(YYYY + 1) mod 100\<close> in two digits; their years are strictly descending; the first
  is \<open>2024-25\<close>, the last \<open>1990-91\<close>; all 35 are distinct.
\<close>

theorem seasons_descending_format:
  "seasons = map yyyy_yy (rev [1990..2024])
   \<and> map year_of seasons = rev [1990..2024]
   \<and> sorted_wrt (>) (map year_of seasons)
   \<and> hd seasons = ''2024-25''
   \<and> last seasons = ''1990-91''
   \<and> distinct seasons
   \<and> length seasons = 35"
proof -
  have "length seasons = 35"
    by (simp add: seasons_spec)
  moreover have "sorted_wrt (>) (map year_of seasons)"
    by (simp only: seasons_years years_descending)
  ultimately show ?thesis
    using seasons_spec seasons_years seasons_ends seasons_distinct by blast
qed

subsection \<open>The season fetcher\<close>

lemma lower_example: "lower ''TEAM_NAME'' = ''team_name''"
  by (simp add: lower_def lower_char_def)

text \<open>
  C5. For every season string and every state: when the provider call raises, or the
  answer has no frame to take (\<open>[0]\<close> raises), the fetch returns the zero-row table
  \<open>pd.DataFrame()\<close>; the function's result is always a table, never an exception. When
  the provider answers with a table, the fetch returns that table with every column name
  lower-cased and its rows as they are.
\<close>

theorem fetch_body_never_raises:
  "(provider w season (now w) = Inl e \<longrightarrow>
      fst (fetch_body w season) = empty_frame \<and> nrows (fst (fetch_body w season)) = 0)
   \<and> (provider w season (now w) = Inr [] \<longrightarrow>
      fst (fetch_body w season) = empty_frame \<and> nrows (fst (fetch_body w season)) = 0)
   \<and> (provider w season (now w) = Inr (data # others) \<longrightarrow>
      fst (fetch_body w season) = data\<lparr>columns := map lower (columns data)\<rparr>
      \<and> rows (fst (fetch_body w season)) = rows data)"
  by (simp add: fetch_body_def call_provider_def try_block_def empty_frame_def nrows_def)

theorem fetch_body_never_raises_witness:
  "fst (fetch_body demo_world ''2022-23'') = empty_frame
   \<and> nrows (fst (fetch_body demo_world ''2022-23'')) = 0
   \<and> fst (fetch_body (demo_world\<lparr>provider := (\<lambda>s t. Inr [])\<rparr>) ''2022-23'') = empty_frame
   \<and> columns (fst (fetch_body demo_world ''2023-24''))
       = [''team_name'', ''gp'', ''pts'', ''fg3m'', ''fg3a'']
   \<and> rows (fst (fetch_body demo_world ''2023-24'')) = rows three_teams"
proof -
  have a: "provider demo_world ''2022-23'' (now demo_world) = Inl (ProviderError ''timeout'')"
    by (simp add: demo_world_def)
  have b: "provider (demo_world\<lparr>provider := (\<lambda>s t. Inr [])\<rparr>) ''2022-23''
             (now (demo_world\<lparr>provider := (\<lambda>s t. Inr [])\<rparr>)) = Inr []"
    by simp
  have c: "provider demo_world ''2023-24'' (now demo_world) = Inr (three_teams # [])"
    by (simp add: demo_world_def)
  have l: "map lower (columns three_teams) = [''team_name'', ''gp'', ''pts'', ''fg3m'', ''fg3a'']"
    by (simp add: three_teams_def lower_def lower_char_def)
  have A: "fst (fetch_body demo_world ''2022-23'') = empty_frame
           \<and> nrows (fst (fetch_body demo_world ''2022-23'')) = 0"
    using fetch_body_never_raises [of demo_world "''2022-23''" "ProviderError ''timeout''"] a
    by blast
  have B: "fst (fetch_body (demo_world\<lparr>provider := (\<lambda>s t. Inr [])\<rparr>) ''2022-23'') = empty_frame"
    using fetch_body_never_raises [of "demo_world\<lparr>provider := (\<lambda>s t. Inr [])\<rparr>" "''2022-23''"] b
    by blast
  have C: "fst (fetch_body demo_world ''2023-24'') = three_teams\<lparr>columns := map lower (columns three_teams)\<rparr>
           \<and> rows (fst (fetch_body demo_world ''2023-24'')) = rows three_teams"
    using fetch_body_never_raises [of demo_world "''2023-24''" _ three_teams "[]"] c
    by blast
  from C have "columns (fst (fetch_body demo_world ''2023-24''))
                 = [''team_name'', ''gp'', ''pts'', ''fg3m'', ''fg3a'']"
    by (simp add: l)
  with A B C show ?thesis
    by blast
qed

subsection \<open>The cache layer\<close>

lemma fetch_body_frame:
  "now (snd (fetch_body w season)) = now w
   \<and> disk (snd (fetch_body w season)) = disk w
   \<and> disk_up (snd (fetch_body w season)) = disk_up w
   \<and> provider (snd (fetch_body w season)) = provider w
   \<and> heap (snd (fetch_body w season)) = heap w
   \<and> combined_df (snd (fetch_body w season)) = combined_df w
   \<and> requests (snd (fetch_body w season)) = requests w @ [season]"
  by (simp add: fetch_body_def call_provider_def py_print_def split: sum.split)

lemma memoize_hit:
  assumes "disk_up w (now w)" "disk w key = Some (t0, v)" "now w \<le> t0 + ttl"
  shows "memoize ttl f w key = (Inr v, w)"
  using assms by (simp add: memoize_def cache_lookup_def)

lemma memoize_miss:
  assumes "disk_up w (now w)"
    and "disk w key = None \<or> (\<exists>t0 v. disk w key = Some (t0, v) \<and> t0 + ttl < now w)"
    and "f w key = (r, w1)" "disk_up w1 (now w1)"
  shows "memoize ttl f w key = (Inr r, w1\<lparr>disk := (disk w1)(key \<mapsto> (now w1, r))\<rparr>)"
  using assms by (auto simp add: memoize_def cache_lookup_def cache_store_def)

text \<open>
  C6. With a working storage: a call for a season whose cache entry is present and not
  older than one hour (3600 seconds) returns the stored table and leaves the state as it
  is, so no request is sent to the provider. A call for a season whose entry is absent or
  older than one hour runs the fetch (one request to the provider), stores its result
  under the season with the current time, and returns it; a second call for the same
  season at most 3600 seconds later returns that result without any further request.
\<close>

theorem memoized_fetch_ttl:
  assumes "\<forall>t. disk_up w t"
  shows "(disk w season = Some (t0, v) \<and> now w \<le> t0 + 3600 \<longrightarrow>
            fetch_nba_team_stats w season = (Inr v, w))
         \<and> (disk w season = None \<or> (\<exists>t0 v. disk w season = Some (t0, v) \<and> t0 + 3600 < now w) \<longrightarrow>
            fst (fetch_nba_team_stats w season) = Inr (fst (fetch_body w season))
            \<and> requests (snd (fetch_nba_team_stats w season)) = requests w @ [season]
            \<and> disk (snd (fetch_nba_team_stats w season)) season
                = Some (now w, fst (fetch_body w season))
            \<and> (d \<le> 3600 \<longrightarrow>
                 fetch_nba_team_stats (sleep d (snd (fetch_nba_team_stats w season))) season
                 = (Inr (fst (fetch_body w season)), sleep d (snd (fetch_nba_team_stats w season)))))"
proof (intro conjI impI)
  assume "disk w season = Some (t0, v) \<and> now w \<le> t0 + 3600"
  with assms show "fetch_nba_team_stats w season = (Inr v, w)"
    by (simp add: fetch_nba_team_stats_def memoize_hit)
next
  assume stale: "disk w season = None \<or> (\<exists>t0 v. disk w season = Some (t0, v) \<and> t0 + 3600 < now w)"
  obtain r w1 where body: "fetch_body w season = (r, w1)"
    by (cases "fetch_body w season")
  have fr: "now w1 = now w" "disk w1 = disk w" "disk_up w1 = disk_up w"
      "requests w1 = requests w @ [season]"
    using fetch_body_frame [of w season] body by simp_all
  have miss': "memoize 3600 fetch_body w season
                 = (Inr r, w1\<lparr>disk := (disk w1)(season \<mapsto> (now w1, r))\<rparr>)"
    using assms stale body fr by (intro memoize_miss) simp_all
  then have miss: "fetch_nba_team_stats w season
                 = (Inr r, w1\<lparr>disk := (disk w1)(season \<mapsto> (now w1, r))\<rparr>)"
    by (simp add: fetch_nba_team_stats_def)
  show "fst (fetch_nba_team_stats w season) = Inr (fst (fetch_body w season))"
    by (simp add: miss body)
  show "requests (snd (fetch_nba_team_stats w season)) = requests w @ [season]"
    by (simp add: miss fr)
  show "disk (snd (fetch_nba_team_stats w season)) season = Some (now w, fst (fetch_body w season))"
    by (simp add: miss fr body)
  {
    assume d: "d \<le> 3600"
    let ?w2 = "sleep d (w1\<lparr>disk := (disk w1)(season \<mapsto> (now w1, r))\<rparr>)"
    have "memoize 3600 fetch_body ?w2 season = (Inr r, ?w2)"
      using assms d by (intro memoize_hit [where ?t0.0 = "now w"]) (simp_all add: sleep_def fr)
    then show "fetch_nba_team_stats (sleep d (snd (fetch_nba_team_stats w season))) season
                 = (Inr (fst (fetch_body w season)), sleep d (snd (fetch_nba_team_stats w season)))"
      by (simp add: miss' body fetch_nba_team_stats_def)
  }
qed

theorem memoized_fetch_ttl_witness:
  "fst (fetch_nba_team_stats demo_world ''2023-24'') = Inr (fst (fetch_body demo_world ''2023-24''))
   \<and> requests (snd (fetch_nba_team_stats demo_world ''2023-24'')) = [''2023-24'']
   \<and> fetch_nba_team_stats (sleep 3600 (snd (fetch_nba_team_stats demo_world ''2023-24''))) ''2023-24''
       = (Inr (fst (fetch_body demo_world ''2023-24'')),
          sleep 3600 (snd (fetch_nba_team_stats demo_world ''2023-24'')))
   \<and> fetch_nba_team_stats (demo_world\<lparr>disk := (\<lambda>k. Some (0, empty_frame)), now := 3600\<rparr>) ''2023-24''
       = (Inr empty_frame, demo_world\<lparr>disk := (\<lambda>k. Some (0, empty_frame)), now := 3600\<rparr>)"
proof -
  have up: "\<forall>t. disk_up demo_world t"
    by (simp add: demo_world_def)
  have up': "\<forall>t. disk_up (demo_world\<lparr>disk := (\<lambda>k. Some (0, empty_frame)), now := 3600\<rparr>) t"
    by (simp add: demo_world_def)
  have none: "disk demo_world ''2023-24'' = None" and req: "requests demo_world = []"
    by (simp_all add: demo_world_def)
  have "fst (fetch_nba_team_stats demo_world ''2023-24'') = Inr (fst (fetch_body demo_world ''2023-24''))
        \<and> requests (snd (fetch_nba_team_stats demo_world ''2023-24'')) = requests demo_world @ [''2023-24'']
        \<and> fetch_nba_team_stats (sleep 3600 (snd (fetch_nba_team_stats demo_world ''2023-24''))) ''2023-24''
            = (Inr (fst (fetch_body demo_world ''2023-24'')),
               sleep 3600 (snd (fetch_nba_team_stats demo_world ''2023-24'')))"
    using memoized_fetch_ttl [OF up, of "''2023-24''" 0 empty_frame 3600] none by simp
  moreover
  have "fetch_nba_team_stats (demo_world\<lparr>disk := (\<lambda>k. Some (0, empty_frame)), now := 3600\<rparr>) ''2023-24''
          = (Inr empty_frame, demo_world\<lparr>disk := (\<lambda>k. Some (0, empty_frame)), now := 3600\<rparr>)"
    using memoized_fetch_ttl [OF up', of "''2023-24''" 0 empty_frame 3600] by simp
  ultimately show ?thesis
    by (simp add: req)
qed

subsection \<open>Frames\<close>

lemma cell_at_map:
  "cell_at ls (map f ls) l = (if l \<in> set ls then f l else Num NaN)"
  by (simp add: cell_at_def map_of_zip_map)

lemma cell_at_missing: "l \<notin> set cols \<Longrightarrow> cell_at cols cells l = Num NaN"
proof -
  assume "l \<notin> set cols"
  then have "l \<notin> fst ` set (zip cols cells)"
    by (auto dest: set_zip_leftD)
  then have "map_of (zip cols cells) l = None"
    by (simp add: map_of_eq_None_iff)
  then show ?thesis
    by (simp add: cell_at_def)
qed

lemma cell_at_put_cell:
  "cell_at (with_label cols c) (put_cell cols c v cells) l
     = (if l = c then v else cell_at cols cells l)"
proof (cases "l \<in> set (with_label cols c)")
  case True
  then show ?thesis
    by (simp add: put_cell_def cell_at_map)
next
  case False
  then have "l \<noteq> c" "l \<notin> set cols"
    by (auto simp: with_label_def split: if_splits)
  with False show ?thesis
    by (simp add: put_cell_def cell_at_map cell_at_missing)
qed

lemma in_with_label: "l \<in> set (with_label cols c) \<longleftrightarrow> l = c \<or> l \<in> set cols"
  by (auto simp: with_label_def)

lemma setitem_simps:
  "columns (setitem df c v) = with_label (columns df) c"
  "nrows (setitem df c v) = nrows df"
  "index (setitem df c v) = index df"
  by (simp_all add: setitem_def nrows_def index_def comp_def)

lemma column_setitem:
  "column (setitem df c v) l
     = (if l = c then Inr (replicate (nrows df) v)
        else if l \<in> set (columns df) then column df l
        else Inl (KeyError l))"
  by (auto simp: column_def setitem_def in_with_label cell_at_put_cell nrows_def comp_def
      map_replicate_const)

lemma set_column_simps:
  "columns (set_column df c vs) = with_label (columns df) c"
  "length vs = nrows df \<Longrightarrow> nrows (set_column df c vs) = nrows df"
  by (simp_all add: set_column_def nrows_def)

lemma column_set_column:
  assumes "length vs = nrows df"
  shows "column (set_column df c vs) c = Inr vs"
proof -
  have "map (\<lambda>r. cell_at (with_label (columns df) c) (snd r) c)
          (map (\<lambda>(r, v). (fst r, put_cell (columns df) c v (snd r))) (zip (rows df) vs))
        = map snd (zip (rows df) vs)"
    by (simp add: cell_at_put_cell case_prod_unfold)
  also have "\<dots> = vs"
    using assms by (simp add: nrows_def)
  finally show ?thesis
    by (simp add: column_def set_column_def in_with_label)
qed

lemma length_column: "column df c = Inr col \<Longrightarrow> length col = nrows df"
  by (auto simp: column_def nrows_def split: if_splits)

lemma column_Inr_iff: "(\<exists>col. column df c = Inr col) \<longleftrightarrow> c \<in> set (columns df)"
  by (simp add: column_def)

lemma add_new_set: "set (add_new acc cs) = set acc \<union> set cs"
  by (induction cs arbitrary: acc) auto

lemma fold_add_new_set:
  "set (fold (\<lambda>f acc. add_new acc (columns f)) fs acc) = set acc \<union> (\<Union>f \<in> set fs. set (columns f))"
  by (induction fs arbitrary: acc) (auto simp: add_new_set)

lemma union_columns_set: "set (union_columns fs) = (\<Union>f \<in> set fs. set (columns f))"
  by (simp add: union_columns_def fold_add_new_set)

lemma pd_concat_Inr:
  assumes "pd_concat fs = Inr df"
  shows "fs \<noteq> []"
    and "columns df = union_columns fs"
    and "rows df = zip [0..<length (concat (map (reindex_rows (union_columns fs)) fs))]
                      (concat (map (reindex_rows (union_columns fs)) fs))"
  using assms by (auto simp: pd_concat_def Let_def split: if_splits)

lemma pd_concat_total: "fs \<noteq> [] \<Longrightarrow> \<exists>df. pd_concat fs = Inr df"
  by (simp add: pd_concat_def Let_def)

lemma length_concat_reindex:
  "length (concat (map (reindex_rows cols) fs)) = sum_list (map nrows fs)"
  by (induction fs) (simp_all add: reindex_rows_def nrows_def)

lemma map_snd_zip_apply:
  "length xs = length ys \<Longrightarrow> map (\<lambda>r. g (snd r)) (zip xs ys) = map g ys"
  by (induction xs ys rule: list_induct2) auto

lemma pd_concat_index:
  assumes "pd_concat fs = Inr df"
  shows "index df = [0..<nrows df]"
  using pd_concat_Inr [OF assms] by (simp add: index_def nrows_def)

lemma pd_concat_nrows:
  assumes "pd_concat fs = Inr df"
  shows "nrows df = sum_list (map nrows fs)"
proof -
  have "nrows df = length (concat (map (reindex_rows (union_columns fs)) fs))"
    using pd_concat_Inr(3) [OF assms] by (simp add: nrows_def)
  then show ?thesis
    by (simp only: length_concat_reindex)
qed

lemma pd_concat_column:
  assumes "pd_concat fs = Inr df" and "c \<in> set (columns df)"
  shows "column df c
           = Inr (concat (map (\<lambda>f. map (\<lambda>r. cell_at (columns f) (snd r) c) (rows f)) fs))"
proof -
  let ?cols = "union_columns fs"
  let ?body = "concat (map (reindex_rows ?cols) fs)"
  have c: "c \<in> set ?cols"
    using assms pd_concat_Inr(2) [OF assms(1)] by simp
  have "map (\<lambda>r. cell_at ?cols (snd r) c) (zip [0..<length ?body] ?body)
          = map (\<lambda>cells. cell_at ?cols cells c) ?body"
    by (rule map_snd_zip_apply) simp
  also have "\<dots> = concat (map (\<lambda>f. map (\<lambda>r. cell_at (columns f) (snd r) c) (rows f)) fs)"
    using c by (simp add: map_concat reindex_rows_def comp_def cell_at_map)
  finally show ?thesis
    using assms(2) pd_concat_Inr(2,3) [OF assms(1)] by (simp add: column_def)
qed

subsection \<open>The aggregation loop\<close>

lemma stamped_Cons:
  "stamped ((s, t) # rs)
     = (if \<not> is_empty t then setitem t ''season'' (Str s) # stamped rs else stamped rs)"
  by (simp add: stamped_def kept_def)

lemma fetch_loop_fetched:
  "length (fetched fetch ss w) = length ss
   \<Longrightarrow> fst (fetch_loop fetch ss acc w) = Inr (acc @ stamped (fetched fetch ss w))"
proof (induction ss arbitrary: acc w)
  case Nil
  then show ?case
    by (simp add: stamped_def kept_def)
next
  case (Cons season rest)
  obtain r w1 where f: "fetch (py_print (''Fetching data for season: '' @ season) w) season = (r, w1)"
    by (cases "fetch (py_print (''Fetching data for season: '' @ season) w) season")
  show ?case
  proof (cases r)
    case (Inl e)
    with f Cons.prems show ?thesis
      by simp
  next
    case (Inr team_stats)
    with f Cons.prems have "length (fetched fetch rest (sleep 2 w1)) = length rest"
      by simp
    from Cons.IH [OF this] f Inr show ?thesis
      by (simp add: stamped_Cons)
  qed
qed

lemma column_stamped_rows:
  "map (\<lambda>r. cell_at (columns (setitem t ''season'' (Str s))) (snd r) c)
       (rows (setitem t ''season'' (Str s)))
   = map (\<lambda>r. if c = ''season'' then Str s else cell_at (columns t) (snd r) c) (rows t)"
  by (simp add: setitem_def cell_at_put_cell comp_def)

lemma stamped_nrows:
  "sum_list (map nrows (stamped rs)) = sum_list (map (\<lambda>r. nrows (snd r)) (kept rs))"
  by (simp add: stamped_def comp_def setitem_simps)

lemma stamped_has_season:
  assumes "pd_concat (stamped rs) = Inr df"
  shows "''season'' \<in> set (columns df)"
proof -
  from pd_concat_Inr(1) [OF assms] obtain f where f: "f \<in> set (stamped rs)"
    by (cases "stamped rs") auto
  then have "''season'' \<in> set (columns f)"
    by (auto simp: stamped_def setitem_simps in_with_label)
  with f show ?thesis
    using pd_concat_Inr(2) [OF assms] by (auto simp: union_columns_set)
qed

lemma stamped_column:
  assumes "pd_concat (stamped rs) = Inr df" and "c \<in> set (columns df)"
  shows "column df c
           = Inr (concat (map (\<lambda>r. map (\<lambda>row. if c = ''season'' then Str (fst r)
                                               else cell_at (columns (snd r)) (snd row) c)
                                       (rows (snd r)))
                              (kept rs)))"
  by (simp add: pd_concat_column [OF assms] stamped_def comp_def column_stamped_rows)

lemma three_teams_lowered:
  "three_teams\<lparr>columns := map lower (columns three_teams)\<rparr>
     = three_teams\<lparr>columns := [''team_name'', ''gp'', ''pts'', ''fg3m'', ''fg3a'']\<rparr>"
  by (simp add: three_teams_def lower_def lower_char_def)

subsection \<open>Label lookup in a table with distinct index labels\<close>

lemma filter_zip_distinct:
  "distinct idx \<Longrightarrow> length col = length idx \<Longrightarrow> p < length idx
   \<Longrightarrow> filter (\<lambda>(i, v). i = idx ! p) (zip idx col) = [(idx ! p, col ! p)]"
proof (induction idx col arbitrary: p rule: list_induct2')
  case (4 i idx v col)
  show ?case
  proof (cases p)
    case 0
    have "filter (\<lambda>(j, v). j = i) (zip idx col) = []"
      using "4.prems"(1) by (auto simp: filter_empty_conv dest: set_zip_leftD)
    with 0 show ?thesis
      by simp
  next
    case (Suc q)
    with "4.prems" have "idx ! q \<noteq> i" "q < length idx"
      by auto
    with "4.IH" [of q] "4.prems" Suc show ?thesis
      by simp
  qed
qed simp_all

lemma loc_label_distinct:
  assumes "distinct idx" "length col = length idx" "p < length idx"
  shows "loc_label idx col (idx ! p) = Inr [col ! p]"
  by (simp add: loc_label_def filter_zip_distinct [OF assms])

lemma collect_all_Inr:
  "(\<And>x. x \<in> set xs \<Longrightarrow> g x = Inr (f x)) \<Longrightarrow> collect (map g xs) = Inr (map f xs)"
  by (induction xs) simp_all

lemma length_index: "length (index df) = nrows df"
  by (simp add: index_def nrows_def)

lemma loc_positions_distinct:
  assumes d: "distinct (index df)" and c: "column df c = Inr col"
    and ps: "\<And>p. p \<in> set ps \<Longrightarrow> p < nrows df"
  shows "loc df (map ((!) (index df)) ps) c = Inr (map ((!) col) ps)"
proof -
  have len: "length col = length (index df)"
    using length_column [OF c] by (simp add: length_index)
  have "collect (map (loc_label (index df) col) (map ((!) (index df)) ps))
          = Inr (map (\<lambda>p. [col ! p]) ps)"
    unfolding map_map comp_def
    using ps by (intro collect_all_Inr) (simp add: loc_label_distinct [OF d len] length_index)
  then show ?thesis
    by (simp add: loc_def c concat_map_singleton comp_def)
qed

lemma positions_bound: "p \<in> set (positions col k) \<Longrightarrow> p < length col"
  by (simp add: positions_def)

lemma positions_set: "set (positions col k) = {p. p < length col \<and> col ! p = Str k}"
  by (auto simp: positions_def)



lemma pd_concat_distinct:
  assumes "pd_concat fs = Inr df"
  shows "distinct (index df)"
  by (simp add: pd_concat_index [OF assms])

subsection \<open>The league trend\<close>





subsection \<open>What a fetch and the loop leave untouched\<close>

lemma memoized_fetch_frame:
  "heap (snd (fetch_nba_team_stats w s)) = heap w
   \<and> combined_df (snd (fetch_nba_team_stats w s)) = combined_df w
   \<and> now (snd (fetch_nba_team_stats w s)) = now w
   \<and> disk_up (snd (fetch_nba_team_stats w s)) = disk_up w
   \<and> provider (snd (fetch_nba_team_stats w s)) = provider w"
proof -
  obtain v w1 where b: "fetch_body w s = (v, w1)"
    by (cases "fetch_body w s")
  with fetch_body_frame [of w s] show ?thesis
    by (simp add: fetch_nba_team_stats_def memoize_def cache_lookup_def cache_store_def
        split: option.split prod.split)
qed

lemma fetch_loop_frame:
  assumes "\<And>w s. heap (snd (fetch w s)) = heap w \<and> combined_df (snd (fetch w s)) = combined_df w"
  shows "heap (snd (fetch_loop fetch ss acc w)) = heap w
         \<and> combined_df (snd (fetch_loop fetch ss acc w)) = combined_df w"
proof (induction ss arbitrary: acc w)
  case Nil
  show ?case by simp
next
  case (Cons season rest)
  let ?w0 = "py_print (''Fetching data for season: '' @ season) w"
  obtain r w1 where f: "fetch ?w0 season = (r, w1)"
    by (cases "fetch ?w0 season")
  have w1: "heap w1 = heap w" "combined_df w1 = combined_df w"
    using assms [of ?w0 season] f by (simp_all add: py_print_def)
  show ?case
  proof (cases r)
    case (Inl e)
    with f w1 show ?thesis by simp
  next
    case (Inr team_stats)
    with f w1 Cons.IH [of _ "sleep 2 w1"] show ?thesis
      by (simp add: sleep_def)
  qed
qed

lemma fetch_loop_result:
  "\<exists>r w1. fetch_loop fetch ss acc w = (r, w1)"
  by (cases "fetch_loop fetch ss acc w") simp

text \<open>The three ways \<open>main\<close> ends, for a non-empty list of seasons.\<close>

lemma main_with_raises:
  assumes "fetch_loop fetch (s # ss) []
             (py_print (''Fetching data for '' @ str_nat (length (s # ss)) @ '' seasons from ''
                        @ s @ '' to '' @ last (s # ss)) w) = (Inl e, w1)"
  shows "main_with fetch (s # ss) w = (Inl e, w1)"
  using assms by (simp add: main_with_def)

lemma main_with_no_data:
  assumes "fetch_loop fetch (s # ss) []
             (py_print (''Fetching data for '' @ str_nat (length (s # ss)) @ '' seasons from ''
                        @ s @ '' to '' @ last (s # ss)) w) = (Inr [], w1)"
  shows "main_with fetch (s # ss) w = (Inr (), py_print ''No data fetched.'' w1)"
  using assms by (simp add: main_with_def)

lemma main_with_data:
  assumes "fetch_loop fetch (s # ss) []
             (py_print (''Fetching data for '' @ str_nat (length (s # ss)) @ '' seasons from ''
                        @ s @ '' to '' @ last (s # ss)) w) = (Inr (f # fs), w1)"
  shows "\<exists>df w2. main_with fetch (s # ss) w = (Inr (), w2) \<and> pd_concat (f # fs) = Inr df
           \<and> heap w2 = heap w1 @ [df] \<and> combined_df w2 = Some (Obj (length (heap w1)))"
proof -
  obtain df where df: "pd_concat (f # fs) = Inr df"
    using pd_concat_total [of "f # fs"] by auto
  with assms show ?thesis
    by (simp add: main_with_def alloc_def py_print_def print_head_def del: last.simps length_Cons)
qed

subsection \<open>How the script ends\<close>

lemma fresh_process_simps:
  "heap (fresh_process w) = []" "combined_df (fresh_process w) = None"
  "now (fresh_process w) = now w" "disk_up (fresh_process w) = disk_up w"
  "provider (fresh_process w) = provider w" "disk (fresh_process w) = disk w"
  "stdout (fresh_process w) = []"
  by (simp_all add: fresh_process_def)

lemma py_print_simps:
  "heap (py_print s w) = heap w" "combined_df (py_print s w) = combined_df w"
  "now (py_print s w) = now w" "disk_up (py_print s w) = disk_up w"
  "provider (py_print s w) = provider w" "disk (py_print s w) = disk w"
  "stdout (py_print s w) = stdout w @ [Text s]"
  by (simp_all add: py_print_def)

lemma script_with_outcome:
  assumes frame: "\<And>w s. heap (snd (fetch w s)) = heap w \<and> combined_df (snd (fetch w s)) = combined_df w"
  shows "(\<exists>e. fst (script_with fetch ss w) = Crashed e)
         \<or> (\<exists>fs df. fst (script_with fetch ss w) = Serving 0 \<and> pd_concat fs = Inr df
               \<and> heap (snd (script_with fetch ss w)) = [df]
               \<and> combined_df (snd (script_with fetch ss w)) = Some (Obj 0))"
proof -
  show ?thesis
  proof (cases ss)
    case Nil
    then show ?thesis
      by (simp add: script_with_def main_with_def)
  next
    case (Cons s rest)
    let ?w0 = "py_print (''Fetching data for '' @ str_nat (length (s # rest)) @ '' seasons from ''
                         @ s @ '' to '' @ last (s # rest)) (fresh_process w)"
    obtain r w1 where loop: "fetch_loop fetch (s # rest) [] ?w0 = (r, w1)"
      using fetch_loop_result by blast
    have w1: "heap w1 = []" "combined_df w1 = None"
      using fetch_loop_frame [of fetch "s # rest" "[]" ?w0, OF frame] loop
      by (simp_all add: py_print_simps fresh_process_simps)
    show ?thesis
    proof (cases r)
      case (Inl e)
      with loop have "main_with fetch (s # rest) (fresh_process w) = (Inl e, w1)"
        by (intro main_with_raises) simp
      with Cons show ?thesis
        by (simp add: script_with_def)
    next
      case (Inr all_team_stats)
      show ?thesis
      proof (cases all_team_stats)
        case Nil
        with loop Inr have "main_with fetch (s # rest) (fresh_process w)
                              = (Inr (), py_print ''No data fetched.'' w1)"
          by (intro main_with_no_data) simp
        with Cons w1 show ?thesis
          by (simp add: script_with_def py_print_simps)
      next
        case (Cons f fs)
        with loop Inr have "fetch_loop fetch (s # rest) [] ?w0 = (Inr (f # fs), w1)"
          by simp
        from main_with_data [OF this] obtain df w2 where
          m: "main_with fetch (s # rest) (fresh_process w) = (Inr (), w2)"
          and df: "pd_concat (f # fs) = Inr df"
          and w2: "heap w2 = heap w1 @ [df]" "combined_df w2 = Some (Obj (length (heap w1)))"
          by blast
        from \<open>ss = s # rest\<close> m w1 w2 have
          "fst (script_with fetch ss w) = Serving 0"
          "heap (snd (script_with fetch ss w)) = [df]"
          "combined_df (snd (script_with fetch ss w)) = Some (Obj 0)"
          by (simp_all add: script_with_def)
        with df show ?thesis
          by blast
      qed
    qed
  qed
qed

lemma script_serving:
  assumes "fst (script_with fetch_nba_team_stats ss w) = Serving a"
  shows "\<exists>fs df. pd_concat fs = Inr df
           \<and> read_combined_df (snd (script_with fetch_nba_team_stats ss w)) = Inr df"
proof -
  from script_with_outcome [of fetch_nba_team_stats ss w] assms
  obtain fs df where "pd_concat fs = Inr df"
    "heap (snd (script_with fetch_nba_team_stats ss w)) = [df]"
    "combined_df (snd (script_with fetch_nba_team_stats ss w)) = Some (Obj 0)"
    using memoized_fetch_frame by auto
  then show ?thesis
    by (auto simp: read_combined_df_def)
qed

lemma script_serves:
  assumes frame: "\<And>w s. heap (snd (fetch w s)) = heap w \<and> combined_df (snd (fetch w s)) = combined_df w"
    and loop: "fst (fetch_loop fetch (s # rest) []
                 (py_print (''Fetching data for '' @ str_nat (length (s # rest)) @ '' seasons from ''
                            @ s @ '' to '' @ last (s # rest)) (fresh_process w))) = Inr (f # fs)"
  shows "fst (script_with fetch (s # rest) w) = Serving 0
         \<and> read_combined_df (snd (script_with fetch (s # rest) w)) = pd_concat (f # fs)"
proof -
  let ?w0 = "py_print (''Fetching data for '' @ str_nat (length (s # rest)) @ '' seasons from ''
                       @ s @ '' to '' @ last (s # rest)) (fresh_process w)"
  obtain w1 where l: "fetch_loop fetch (s # rest) [] ?w0 = (Inr (f # fs), w1)"
    using loop by (cases "fetch_loop fetch (s # rest) [] ?w0") simp
  have w1: "heap w1 = []" "combined_df w1 = None"
    using fetch_loop_frame [of fetch "s # rest" "[]" ?w0, OF frame] l
    by (simp_all add: py_print_simps fresh_process_simps)
  from main_with_data [OF l] obtain df w2 where
    m: "main_with fetch (s # rest) (fresh_process w) = (Inr (), w2)"
    and df: "pd_concat (f # fs) = Inr df"
    and w2: "heap w2 = heap w1 @ [df]" "combined_df w2 = Some (Obj (length (heap w1)))"
    by blast
  from m w1 w2 df show ?thesis
    by (simp add: script_with_def read_combined_df_def)
qed

lemma demo_fetched_fresh:
  "fetched fetch_nba_team_stats [''2023-24'', ''2022-23''] (py_print b (fresh_process demo_world))
     = [(''2023-24'', three_teams\<lparr>columns := [''team_name'', ''gp'', ''pts'', ''fg3m'', ''fg3a'']\<rparr>),
        (''2022-23'', empty_frame)]"
  by (simp add: fetch_nba_team_stats_def memoize_def cache_lookup_def cache_store_def
      fetch_body_def call_provider_def try_block_def py_print_def sleep_def demo_world_def
      fresh_process_def three_teams_lowered)

lemma demo_stamped:
  "stamped [(''2023-24'', three_teams\<lparr>columns := [''team_name'', ''gp'', ''pts'', ''fg3m'', ''fg3a'']\<rparr>),
            (''2022-23'', empty_frame)]
     = [setitem (three_teams\<lparr>columns := [''team_name'', ''gp'', ''pts'', ''fg3m'', ''fg3a'']\<rparr>)
          ''season'' (Str ''2023-24'')]"
  by (simp add: stamped_def kept_def is_empty_def empty_frame_def three_teams_def)

lemma demo_concat:
  "pd_concat [setitem (three_teams\<lparr>columns := [''team_name'', ''gp'', ''pts'', ''fg3m'', ''fg3a'']\<rparr>)
                ''season'' (Str ''2023-24'')] = Inr demo_combined"
  by (simp add: pd_concat_def Let_def union_columns_def reindex_rows_def setitem_def
      with_label_def put_cell_def cell_at_def three_teams_def demo_combined_def upt_rec)

lemma demo_run:
  "fst (script_with fetch_nba_team_stats [''2023-24'', ''2022-23''] demo_world) = Serving 0
   \<and> read_combined_df (snd (script_with fetch_nba_team_stats [''2023-24'', ''2022-23''] demo_world))
       = Inr demo_combined"
proof -
  let ?b = "''Fetching data for '' @ str_nat (length [''2023-24'', ''2022-23'']) @ '' seasons from ''
            @ ''2023-24'' @ '' to '' @ last [''2023-24'', ''2022-23'']"
  have "length (fetched fetch_nba_team_stats [''2023-24'', ''2022-23'']
                  (py_print ?b (fresh_process demo_world))) = length [''2023-24'', ''2022-23'']"
    unfolding demo_fetched_fresh by simp
  from fetch_loop_fetched [OF this, of "[]"]
  have "fst (fetch_loop fetch_nba_team_stats [''2023-24'', ''2022-23''] []
               (py_print ?b (fresh_process demo_world)))
          = Inr [setitem (three_teams\<lparr>columns := [''team_name'', ''gp'', ''pts'', ''fg3m'', ''fg3a'']\<rparr>)
                   ''season'' (Str ''2023-24'')]"
    unfolding demo_fetched_fresh demo_stamped by simp
  from script_serves [where fetch = fetch_nba_team_stats and w = demo_world, OF _ this] show ?thesis
    unfolding demo_concat using memoized_fetch_frame by simp
qed

lemmas demo_run_serving = demo_run [THEN conjunct1]

lemmas demo_run_table = demo_run [THEN conjunct2]

text \<open>
  C10. When the script reaches the dashboard, the combined table it serves has the index
  labels \<open>0, 1, ..., n - 1\<close>, each once (the concatenation of line 65 resets the index).
  So, for every season, the lookup of line 200 of \<open>gp\<close> in the whole table at the index
  labels of the season's group returns the \<open>gp\<close> cells of exactly the rows of that
  season: the rows whose \<open>season\<close> cell is that season, and no others.
\<close>

theorem combined_index_is_range:
  assumes "fst (script_with fetch_nba_team_stats ss w) = Serving a"
  shows "\<exists>df. read_combined_df (snd (script_with fetch_nba_team_stats ss w)) = Inr df
           \<and> index df = [0..<nrows df]
           \<and> distinct (index df)
           \<and> (\<forall>season_col gp k.
                 column df ''season'' = Inr season_col \<and> column df ''gp'' = Inr gp \<longrightarrow>
                   loc df (map ((!) (index df)) (positions season_col k)) ''gp''
                     = Inr (map ((!) gp) (positions season_col k))
                   \<and> set (positions season_col k) = {p. p < nrows df \<and> season_col ! p = Str k})"
proof -
  from script_serving [OF assms] obtain fs df where
    c: "pd_concat fs = Inr df"
    and r: "read_combined_df (snd (script_with fetch_nba_team_stats ss w)) = Inr df"
    by blast
  have d: "distinct (index df)"
    by (rule pd_concat_distinct [OF c])
  have "loc df (map ((!) (index df)) (positions season_col k)) ''gp''
          = Inr (map ((!) gp) (positions season_col k))
        \<and> set (positions season_col k) = {p. p < nrows df \<and> season_col ! p = Str k}"
    if "column df ''season'' = Inr season_col" "column df ''gp'' = Inr gp" for season_col gp k
  proof
    show "loc df (map ((!) (index df)) (positions season_col k)) ''gp''
            = Inr (map ((!) gp) (positions season_col k))"
      using that by (intro loc_positions_distinct [OF d])
        (auto dest!: positions_bound simp: length_column)
    show "set (positions season_col k) = {p. p < nrows df \<and> season_col ! p = Str k}"
      using that(1) by (simp add: positions_set length_column)
  qed
  with r d pd_concat_index [OF c] show ?thesis
    by blast
qed

theorem combined_index_is_range_witness:
  "fst (script_with fetch_nba_team_stats [''2023-24'', ''2022-23''] demo_world) = Serving 0
   \<and> index demo_combined = [0..<nrows demo_combined]
   \<and> distinct (index demo_combined)
   \<and> loc demo_combined (map ((!) (index demo_combined))
                             (positions (replicate 3 (Str ''2023-24'')) ''2023-24'')) ''gp''
       = Inr (map ((!) [Num (Fin 10), Num (Fin 0), Num (Fin 0)])
                  (positions (replicate 3 (Str ''2023-24'')) ''2023-24''))"
proof -
  have s: "column demo_combined ''season'' = Inr (replicate 3 (Str ''2023-24''))"
    by (simp add: column_def demo_combined_def cell_at_def numeral_3_eq_3)
  have g: "column demo_combined ''gp'' = Inr [Num (Fin 10), Num (Fin 0), Num (Fin 0)]"
    by (simp add: column_def demo_combined_def cell_at_def)
  from combined_index_is_range [OF demo_run_serving] show ?thesis
    unfolding demo_run_table using s g demo_run_serving by auto
qed

subsection \<open>A run without data\<close>

lemma no_data_py_print: "no_data (py_print s w) = no_data w"
  by (simp add: no_data_def py_print_def)

lemma no_data_sleep: "no_data (sleep d w) = no_data w"
  by (simp add: no_data_def sleep_def)

lemma fetch_body_no_data:
  assumes "no_data w"
  shows "is_empty (fst (fetch_body w s))"
proof -
  from assms have "case try_block (provider w s (now w)) of Inl e \<Rightarrow> True | Inr df \<Rightarrow> is_empty df"
    by (simp add: no_data_def)
  then show ?thesis
    by (simp add: fetch_body_def call_provider_def is_empty_def empty_frame_def split: sum.splits)
qed

lemma no_data_fetch:
  assumes "no_data w"
  shows "\<exists>v w'. fetch_nba_team_stats w s = (Inr v, w') \<and> is_empty v \<and> no_data w'"
proof -
  obtain v w1 where b: "fetch_body w s = (v, w1)"
    by (cases "fetch_body w s")
  have v: "is_empty v"
    using fetch_body_no_data [OF assms, of s] b by simp
  have w1: "now w1 = now w" "disk w1 = disk w" "disk_up w1 = disk_up w" "provider w1 = provider w"
    using fetch_body_frame [of w s] b by simp_all
  have up: "disk_up w t" for t
    using assms by (simp add: no_data_def)
  have stored: "is_empty x" if "disk w s = Some (t, x)" for t x
  proof -
    from assms have "case disk w s of None \<Rightarrow> True | Some entry \<Rightarrow> is_empty (snd entry)"
      unfolding no_data_def by blast
    with that show ?thesis by simp
  qed
  have "no_data (w1\<lparr>disk := (disk w1)(s \<mapsto> (now w1, v))\<rparr>)"
    using assms v by (simp add: no_data_def w1)
  with v b up stored assms show ?thesis
    by (auto simp: fetch_nba_team_stats_def memoize_def cache_lookup_def cache_store_def w1
        split: option.split)
qed

lemma no_data_loop:
  "no_data w \<Longrightarrow> fst (fetch_loop fetch_nba_team_stats ss acc w) = Inr acc"
proof (induction ss arbitrary: acc w)
  case Nil
  show ?case by simp
next
  case (Cons season rest)
  let ?w0 = "py_print (''Fetching data for season: '' @ season) w"
  from Cons.prems have "no_data ?w0"
    by (simp add: no_data_py_print)
  from no_data_fetch [OF this, of season] obtain v w' where
    f: "fetch_nba_team_stats ?w0 season = (Inr v, w')" "is_empty v" "no_data w'"
    by blast
  from f(3) have "no_data (sleep 2 w')"
    by (simp add: no_data_sleep)
  from Cons.IH [OF this, of acc] f show ?case
    by simp
qed

lemma script_no_data:
  assumes frame: "\<And>w s. heap (snd (fetch w s)) = heap w \<and> combined_df (snd (fetch w s)) = combined_df w"
    and loop: "fst (fetch_loop fetch (s # rest) []
                 (py_print (''Fetching data for '' @ str_nat (length (s # rest)) @ '' seasons from ''
                            @ s @ '' to '' @ last (s # rest)) (fresh_process w))) = Inr []"
  shows "fst (script_with fetch (s # rest) w) = Crashed (NameError ''name combined_df is not defined'')
         \<and> last (stdout (snd (script_with fetch (s # rest) w))) = Text ''No data fetched.''"
proof -
  let ?w0 = "py_print (''Fetching data for '' @ str_nat (length (s # rest)) @ '' seasons from ''
                       @ s @ '' to '' @ last (s # rest)) (fresh_process w)"
  obtain w1 where l: "fetch_loop fetch (s # rest) [] ?w0 = (Inr [], w1)"
    using loop by (cases "fetch_loop fetch (s # rest) [] ?w0") simp
  have w1: "combined_df w1 = None"
    using fetch_loop_frame [of fetch "s # rest" "[]" ?w0, OF frame] l
    by (simp add: py_print_simps fresh_process_simps)
  from main_with_no_data [OF l] w1 show ?thesis
    by (simp add: script_with_def py_print_simps)
qed

lemma seasons_Cons: "\<exists>s rest. seasons = s # rest"
proof (cases seasons)
  case Nil
  with seasons_spec show ?thesis by simp
next
  case (Cons s rest)
  then show ?thesis by blast
qed

text \<open>
  C1 (the code departs from it). In a state without data for any season, \<open>main\<close> prints
  \<open>No data fetched.\<close> and binds no \<open>combined_df\<close>; the script then ends with the
  \<open>NameError\<close> of line 75 and not with the report of line 271. In no state at all does
  the script reach that report: it never ends after its last statement.
\<close>

theorem no_data_ends_in_name_error:
  "(no_data w \<longrightarrow>
      fst (script w) = Crashed (NameError ''name combined_df is not defined'')
      \<and> last (stdout (snd (script w))) = Text ''No data fetched.'')
   \<and> fst (script w) \<noteq> Exited"
proof
  show "no_data w \<longrightarrow>
      fst (script w) = Crashed (NameError ''name combined_df is not defined'')
      \<and> last (stdout (snd (script w))) = Text ''No data fetched.''"
  proof
    assume nd: "no_data w"
    obtain s rest where ss: "seasons = s # rest"
      using seasons_Cons by blast
    let ?w0 = "py_print (''Fetching data for '' @ str_nat (length (s # rest)) @ '' seasons from ''
                         @ s @ '' to '' @ last (s # rest)) (fresh_process w)"
    have "no_data ?w0"
      using nd by (simp add: no_data_def py_print_simps fresh_process_simps)
    then have loop: "fst (fetch_loop fetch_nba_team_stats (s # rest) [] ?w0) = Inr []"
      by (rule no_data_loop)
    from script_no_data [where fetch = fetch_nba_team_stats and w = w and s = s and rest = rest, OF _ loop]
    show "fst (script w) = Crashed (NameError ''name combined_df is not defined'')
          \<and> last (stdout (snd (script w))) = Text ''No data fetched.''"
      using memoized_fetch_frame by (simp add: script_def ss)
  qed
next
  from script_with_outcome [of fetch_nba_team_stats seasons w]
  show "fst (script w) \<noteq> Exited"
    using memoized_fetch_frame by (auto simp: script_def)
qed

theorem no_data_ends_in_name_error_witness:
  "fst (script (demo_world\<lparr>provider := (\<lambda>s t. Inl (ProviderError ''timeout''))\<rparr>))
     = Crashed (NameError ''name combined_df is not defined'')
   \<and> last (stdout (snd (script (demo_world\<lparr>provider := (\<lambda>s t. Inl (ProviderError ''timeout''))\<rparr>))))
       = Text ''No data fetched.''"
proof -
  have "no_data (demo_world\<lparr>provider := (\<lambda>s t. Inl (ProviderError ''timeout''))\<rparr>)"
    by (simp add: no_data_def demo_world_def try_block_def)
  with no_data_ends_in_name_error
         [of "demo_world\<lparr>provider := (\<lambda>s t. Inl (ProviderError ''timeout''))\<rparr>"]
  show ?thesis
    by blast
qed

subsection \<open>The per-game rates\<close>

lemma series_div_numeric:
  "series_div (map Num ps) (map Num gs) = Inr (map (\<lambda>(p, g). Num (num_div p g)) (zip ps gs))"
proof -
  have "map (\<lambda>(x, y). cell_div x y) (zip (map Num ps) (map Num gs))
          = map (\<lambda>r. Inr (Num (num_div (fst r) (snd r)))) (zip ps gs)"
    by (simp add: zip_map_map case_prod_unfold)
  then have "series_div (map Num ps) (map Num gs)
               = Inr (map (\<lambda>r. Num (num_div (fst r) (snd r))) (zip ps gs))"
    unfolding series_div_def by (simp add: collect_all_Inr)
  then show ?thesis
    by (simp add: case_prod_unfold)
qed

lemma serving_read: "read_combined_df serving_world = Inr demo_combined"
  by (simp add: read_combined_df_def serving_world_def)

lemma demo_selected:
  "select_eq demo_combined ''season'' (Str ''2023-24'') = Inr demo_combined"
  by (simp add: select_eq_def column_def demo_combined_def cell_at_def)

lemma demo_points:
  "per_game demo_combined ''pts_per_g'' ''pts'' ''gp''
     = Inr (set_column demo_combined ''pts_per_g'' [Num (Fin (82 / 10)), Num PInf, Num NaN])"
  by (simp add: per_game_def column_def demo_combined_def cell_at_def series_div_def)

lemma demo_threes:
  "per_game demo_combined ''fg3_per_g'' ''fg3m'' ''gp''
     = Inr (set_column demo_combined ''fg3_per_g'' [Num (Fin 3), Num NaN, Num PInf])"
  by (simp add: per_game_def column_def demo_combined_def cell_at_def series_div_def)

lemma demo_names:
  "out \<noteq> ''team_name''
   \<Longrightarrow> column (set_column demo_combined out [a, b, c]) ''team_name''
     = Inr [Str ''Hawks'', Str ''Celtics'', Str ''Nets'']"
  by (simp add: column_def set_column_def with_label_def put_cell_def demo_combined_def cell_at_def)

lemma per_game_graph_serving:
  assumes "per_game demo_combined out a ''gp'' = Inr (set_column demo_combined out [x, y, z])"
    and out: "out \<noteq> ''team_name''"
  shows "fst (per_game_graph out a t ''2023-24'' serving_world)
           = Inr \<lparr>title = t @ ''2023-24'',
                  x_values = [Str ''Hawks'', Str ''Celtics'', Str ''Nets''],
                  y_values = [x, y, z]\<rparr>"
proof -
  have n: "length [x, y, z] = nrows demo_combined"
    by (simp add: nrows_def demo_combined_def)
  have "chart (set_column demo_combined out [x, y, z]) ''team_name'' out (t @ ''2023-24'')
          = Inr \<lparr>title = t @ ''2023-24'',
                 x_values = [Str ''Hawks'', Str ''Celtics'', Str ''Nets''],
                 y_values = [x, y, z]\<rparr>"
    by (simp add: chart_def demo_names [OF out] column_set_column [OF n])
  with assms(1) show ?thesis
    by (simp add: per_game_graph_def serving_read demo_selected alloc_def)
qed

text \<open>
  C8 as stated fails: in the served table of \<open>demo_world\<close> two teams have played no
  game; their rows are neither skipped nor marked, and the charts hold the infinity of
  82 / 0 and 5 / 0 and the NaN of 0 / 0.
\<close>

theorem zero_games_counterexample:
  "fst (update_points_graph ''2023-24'' serving_world)
     = Inr \<lparr>title = ''Team Points Per Game - 2023-24'',
            x_values = [Str ''Hawks'', Str ''Celtics'', Str ''Nets''],
            y_values = [Num (Fin (82 / 10)), Num PInf, Num NaN]\<rparr>
   \<and> fst (update_threes_graph ''2023-24'' serving_world)
       = Inr \<lparr>title = ''Team Three Pointers Made Per Game - 2023-24'',
              x_values = [Str ''Hawks'', Str ''Celtics'', Str ''Nets''],
              y_values = [Num (Fin 3), Num NaN, Num PInf]\<rparr>"
proof -
  have "''pts_per_g'' \<noteq> ''team_name''" "''fg3_per_g'' \<noteq> ''team_name''"
    by simp_all
  from per_game_graph_serving [OF demo_points this(1), of "''Team Points Per Game - ''"]
       per_game_graph_serving [OF demo_threes this(2), of "''Team Three Pointers Made Per Game - ''"]
  show ?thesis
    by (simp add: update_points_graph_def update_threes_graph_def)
qed

text \<open>
  C8, amended. The statement of lines 140 and 175 divides without a guard: for a frame
  whose two columns are numeric it succeeds, keeps every row, and writes into the new
  column, row by row, the IEEE quotient of the two cells. For finite cells this is the
  quotient when games-played is not zero; when games-played is zero it is NaN for a zero
  numerator, plus infinity for a positive and minus infinity for a negative one.
\<close>

theorem per_game_is_unguarded:
  "(column df a = Inr (map Num ps) \<and> column df b = Inr (map Num gs) \<longrightarrow>
      per_game df out a b = Inr (set_column df out (map (\<lambda>(p, g). Num (num_div p g)) (zip ps gs)))
      \<and> nrows (set_column df out (map (\<lambda>(p, g). Num (num_div p g)) (zip ps gs))) = nrows df
      \<and> column (set_column df out (map (\<lambda>(p, g). Num (num_div p g)) (zip ps gs))) out
          = Inr (map (\<lambda>(p, g). Num (num_div p g)) (zip ps gs)))
   \<and> (g \<noteq> 0 \<longrightarrow> num_div (Fin p) (Fin g) = Fin (p / g))
   \<and> num_div (Fin p) (Fin 0) = (if p = 0 then NaN else if 0 < p then PInf else NInf)"
proof (intro conjI impI)
  assume cols: "column df a = Inr (map Num ps) \<and> column df b = Inr (map Num gs)"
  let ?q = "map (\<lambda>(p, g). Num (num_div p g)) (zip ps gs)"
  have "length ps = nrows df" "length gs = nrows df"
    using cols length_column [of df a "map Num ps"] length_column [of df b "map Num gs"]
    by simp_all
  then have n: "length ?q = nrows df"
    by simp
  show "per_game df out a b = Inr (set_column df out ?q)"
    using cols by (simp add: per_game_def series_div_numeric)
  show "nrows (set_column df out ?q) = nrows df"
    by (rule set_column_simps(2) [OF n])
  show "column (set_column df out ?q) out = Inr ?q"
    by (rule column_set_column [OF n])
qed simp_all

theorem per_game_is_unguarded_witness:
  "per_game demo_combined ''pts_per_g'' ''pts'' ''gp''
     = Inr (set_column demo_combined ''pts_per_g'' [Num (Fin (82 / 10)), Num PInf, Num NaN])
   \<and> nrows (set_column demo_combined ''pts_per_g'' [Num (Fin (82 / 10)), Num PInf, Num NaN]) = 3
   \<and> num_div (Fin 82) (Fin 10) = Fin (82 / 10)
   \<and> num_div (Fin 82) (Fin 0) = PInf"
proof -
  have a: "column demo_combined ''pts'' = Inr (map Num [Fin 82, Fin 82, Fin 0])"
    by (simp add: column_def demo_combined_def cell_at_def)
  have b: "column demo_combined ''gp'' = Inr (map Num [Fin 10, Fin 0, Fin 0])"
    by (simp add: column_def demo_combined_def cell_at_def)
  have n: "nrows demo_combined = 3"
    by (simp add: nrows_def demo_combined_def)
  from per_game_is_unguarded [of demo_combined "''pts''" "[Fin 82, Fin 82, Fin 0]" "''gp''"
         "[Fin 10, Fin 0, Fin 0]" "''pts_per_g''" 10 82] a b n
  show ?thesis
    by simp
qed

subsection \<open>The callbacks and the combined table\<close>

lemma per_game_graph_frame:
  "combined_df (snd (per_game_graph out a t selected_season w)) = combined_df w
   \<and> take (length (heap w)) (heap (snd (per_game_graph out a t selected_season w))) = heap w"
  by (simp add: per_game_graph_def alloc_def split: sum.split)

lemma read_after:
  assumes "read_combined_df w = Inr df"
    and "combined_df w' = combined_df w"
    and "take (length (heap w)) (heap w') = heap w"
  shows "read_combined_df w' = Inr df"
proof -
  from assms(1) obtain addr where a: "combined_df w = Some (Obj addr)" "addr < length (heap w)"
    "heap w ! addr = df"
    by (auto simp: read_combined_df_def split: option.splits pyval.splits if_splits)
  have "length (take (length (heap w)) (heap w')) = length (heap w)"
    by (simp only: assms(3))
  then have "length (heap w) \<le> length (heap w')"
    by simp
  moreover have "take (length (heap w)) (heap w') ! addr = heap w' ! addr"
    using a(2) by simp
  then have "heap w' ! addr = heap w ! addr"
    by (simp only: assms(3))
  ultimately show ?thesis
    using a assms(2) by (simp add: read_combined_df_def)
qed

text \<open>
  C9. Every query of the dashboard leaves the combined table as it is: after
  \<open>update_points_graph\<close>, \<open>update_threes_graph\<close>, \<open>update_threes_trend\<close> and
  \<open>export_data\<close>, for every selected season and click count and whether or not the
  query raises, the global \<open>combined_df\<close> refers to the same object, every object that
  existed before is unchanged, and so the combined table read after the query is the
  table read before it; its columns are the same, so a per-game column it did not have
  it still does not have (the column is written into the copy \<open>filtered_df\<close>).
\<close>

theorem queries_leave_table_unchanged:
  assumes "read_combined_df w = Inr df"
  shows "read_combined_df (snd (update_points_graph selected_season w)) = Inr df
         \<and> read_combined_df (snd (update_threes_graph selected_season w)) = Inr df
         \<and> read_combined_df (snd (update_threes_trend selected_season w)) = Inr df
         \<and> read_combined_df (snd (export_data n_clicks w)) = Inr df
         \<and> take (length (heap w)) (heap (snd (update_points_graph selected_season w))) = heap w
         \<and> take (length (heap w)) (heap (snd (update_threes_graph selected_season w))) = heap w"
proof (intro conjI)
  show "read_combined_df (snd (update_points_graph selected_season w)) = Inr df"
    unfolding update_points_graph_def
    using per_game_graph_frame by (intro read_after [OF assms]) simp_all
  show "read_combined_df (snd (update_threes_graph selected_season w)) = Inr df"
    unfolding update_threes_graph_def
    using per_game_graph_frame by (intro read_after [OF assms]) simp_all
  show "read_combined_df (snd (update_threes_trend selected_season w)) = Inr df"
    using assms by (simp add: update_threes_trend_def split: sum.split)
  show "read_combined_df (snd (export_data n_clicks w)) = Inr df"
    using assms by (simp add: export_data_def)
  show "take (length (heap w)) (heap (snd (update_points_graph selected_season w))) = heap w"
    unfolding update_points_graph_def using per_game_graph_frame by simp
  show "take (length (heap w)) (heap (snd (update_threes_graph selected_season w))) = heap w"
    unfolding update_threes_graph_def using per_game_graph_frame by simp
qed

lemma serving_heap_after:
  "heap (snd (update_points_graph ''2023-24'' serving_world))
     = [demo_combined, demo_combined,
        set_column demo_combined ''pts_per_g'' [Num (Fin (82 / 10)), Num PInf, Num NaN]]"
proof -
  have h: "heap serving_world = [demo_combined]"
    by (simp add: serving_world_def)
  show ?thesis
    by (simp add: update_points_graph_def per_game_graph_def serving_read demo_selected alloc_def
        demo_points h)
qed

theorem queries_leave_table_unchanged_witness:
  "read_combined_df (snd (update_points_graph ''2023-24'' serving_world)) = Inr demo_combined
   \<and> read_combined_df (snd (update_threes_graph ''2023-24'' serving_world)) = Inr demo_combined
   \<and> read_combined_df (snd (update_threes_trend ''2023-24'' serving_world)) = Inr demo_combined
   \<and> read_combined_df (snd (export_data (Some 1) serving_world)) = Inr demo_combined
   \<and> column demo_combined ''pts_per_g'' = Inl (KeyError ''pts_per_g'')
   \<and> column (heap (snd (update_points_graph ''2023-24'' serving_world)) ! 2) ''pts_per_g''
       = Inr [Num (Fin (82 / 10)), Num PInf, Num NaN]"
proof -
  have n: "length [Num (Fin (82 / 10)), Num PInf, Num NaN] = nrows demo_combined"
    by (simp add: nrows_def demo_combined_def)
  have k: "column demo_combined ''pts_per_g'' = Inl (KeyError ''pts_per_g'')"
    by (simp add: column_def demo_combined_def)
  have c: "column (heap (snd (update_points_graph ''2023-24'' serving_world)) ! 2) ''pts_per_g''
             = Inr [Num (Fin (82 / 10)), Num PInf, Num NaN]"
    unfolding serving_heap_after using column_set_column [OF n] by simp
  from queries_leave_table_unchanged [OF serving_read, of "''2023-24''" "Some 1"] k c
  show ?thesis
    by blast
qed

subsection \<open>The cache storage fails\<close>












lemma loop_start_Cons:
  "loop_start (s # rest) w
     = py_print (''Fetching data for '' @ str_nat (length (s # rest)) @ '' seasons from ''
                 @ s @ '' to '' @ last (s # rest)) w"
  by (simp add: loop_start_def)



lemmas fetch_eval =
  fetch_nba_team_stats_def memoize_def cache_lookup_def cache_store_def
  fetch_body_def call_provider_def try_block_def py_print_def sleep_def fresh_process_def















subsection \<open>The combined table of \<open>main\<close>\<close>

lemma remdups_absorb: "c \<in> set ys \<Longrightarrow> remdups (xs @ c # ys) = remdups (xs @ ys)"
  by (induction xs) (simp_all add: insert_absorb)

lemma remdups_append_remdups: "remdups (xs @ remdups ys) = remdups (xs @ ys)"
  by (induction xs) simp_all

text \<open>\<open>add_new\<close> keeps the first occurrence of every label, in order.\<close>

lemma add_new_first:
  "distinct acc \<Longrightarrow> add_new acc cs = rev (remdups (rev (acc @ cs)))"
proof (induction cs arbitrary: acc)
  case Nil
  then show ?case
    by (simp add: distinct_remdups_id)
next
  case (Cons c cs)
  show ?case
  proof (cases "c \<in> set acc")
    case True
    then have "remdups (rev cs @ c # rev acc) = remdups (rev cs @ rev acc)"
      by (intro remdups_absorb) simp
    with True Cons.IH [OF Cons.prems] show ?thesis
      by simp
  next
    case False
    with Cons.prems have "distinct (acc @ [c])"
      by simp
    from Cons.IH [OF this] False show ?thesis
      by simp
  qed
qed

lemma fold_add_new_first:
  "distinct acc
   \<Longrightarrow> fold (\<lambda>f acc. add_new acc (columns f)) fs acc
       = rev (remdups (rev (acc @ concat (map columns fs))))"
proof (induction fs arbitrary: acc)
  case Nil
  then show ?case
    by (simp add: distinct_remdups_id)
next
  case (Cons g fs)
  have a: "add_new acc (columns g) = rev (remdups (rev (acc @ columns g)))"
    by (rule add_new_first [OF Cons.prems])
  then have "distinct (add_new acc (columns g))"
    by simp
  from Cons.IH [OF this]
  have "fold (\<lambda>f acc. add_new acc (columns f)) (g # fs) acc
          = rev (remdups (rev (concat (map columns fs)) @ remdups (rev (acc @ columns g))))"
    by (simp add: a)
  then show ?case
    by (simp add: remdups_append_remdups)
qed

lemma union_columns_first:
  "union_columns fs = rev (remdups (rev (concat (map columns fs))))"
  using fold_add_new_first [of "[]" fs] by (simp add: union_columns_def)

lemma reindex_stamped:
  "reindex_rows cols (setitem t ''season'' (Str s))
     = map (\<lambda>row. map (\<lambda>c. if c = ''season'' then Str s else cell_at (columns t) (snd row) c) cols)
           (rows t)"
  by (simp add: reindex_rows_def setitem_def cell_at_put_cell comp_def)

lemma stamped_columns:
  "map columns (stamped rs)
     = map (\<lambda>r. if ''season'' \<in> set (columns (snd r)) then columns (snd r)
                 else columns (snd r) @ [''season'']) (kept rs)"
  by (simp add: stamped_def setitem_simps with_label_def comp_def)

lemma stamped_body:
  "concat (map (reindex_rows cols) (stamped rs))
     = concat (map (\<lambda>r. map (\<lambda>row. map (\<lambda>c. if c = ''season'' then Str (fst r)
                                                else cell_at (columns (snd r)) (snd row) c) cols)
                               (rows (snd r)))
                   (kept rs))"
  by (simp add: stamped_def comp_def reindex_stamped)

lemma stamped_concat_shape:
  assumes "pd_concat (stamped rs) = Inr df"
  shows "columns df
           = rev (remdups (rev (concat (map (\<lambda>r. if ''season'' \<in> set (columns (snd r))
                                                   then columns (snd r)
                                                   else columns (snd r) @ [''season''])
                                            (kept rs)))))"
    and "rows df
           = zip [0..<nrows df]
               (concat (map (\<lambda>r. map (\<lambda>row. map (\<lambda>c. if c = ''season'' then Str (fst r)
                                                      else cell_at (columns (snd r)) (snd row) c)
                                                (columns df))
                                     (rows (snd r)))
                            (kept rs)))"
proof -
  show c: "columns df
           = rev (remdups (rev (concat (map (\<lambda>r. if ''season'' \<in> set (columns (snd r))
                                                   then columns (snd r)
                                                   else columns (snd r) @ [''season''])
                                            (kept rs)))))"
    using pd_concat_Inr(2) [OF assms] by (simp only: union_columns_first stamped_columns)
  have n: "nrows df = length (concat (map (reindex_rows (union_columns (stamped rs))) (stamped rs)))"
    using pd_concat_Inr(3) [OF assms] by (simp add: nrows_def)
  have "rows df = zip [0..<nrows df] (concat (map (reindex_rows (columns df)) (stamped rs)))"
    using pd_concat_Inr(2,3) [OF assms] by (simp only: n)
  then show "rows df
           = zip [0..<nrows df]
               (concat (map (\<lambda>r. map (\<lambda>row. map (\<lambda>c. if c = ''season'' then Str (fst r)
                                                      else cell_at (columns (snd r)) (snd row) c)
                                                (columns df))
                                     (rows (snd r)))
                            (kept rs)))"
    by (simp only: stamped_body)
qed

lemma main_with_binds:
  assumes "fst (fetch_loop fetch (s # rest) [] (loop_start (s # rest) u)) = Inr (f # fs)"
    and "pd_concat (f # fs) = Inr df"
  shows "fst (main_with fetch (s # rest) u) = Inr ()
         \<and> read_combined_df (snd (main_with fetch (s # rest) u)) = Inr df"
proof -
  let ?w0 = "py_print (''Fetching data for '' @ str_nat (length (s # rest)) @ '' seasons from ''
                       @ s @ '' to '' @ last (s # rest)) u"
  obtain w1 where l: "fetch_loop fetch (s # rest) [] ?w0 = (Inr (f # fs), w1)"
    using assms(1) unfolding loop_start_Cons
    by (cases "fetch_loop fetch (s # rest) [] ?w0") simp
  from main_with_data [OF l] obtain df' w2 where
    m: "main_with fetch (s # rest) u = (Inr (), w2)"
    and df: "pd_concat (f # fs) = Inr df'"
    and w2: "heap w2 = heap w1 @ [df']" "combined_df w2 = Some (Obj (length (heap w1)))"
    by blast
  from df assms(2) have "df' = df"
    by simp
  with m w2 show ?thesis
    by (simp add: read_combined_df_def)
qed

lemma main_with_binds_nothing:
  assumes "fst (fetch_loop fetch (s # rest) [] (loop_start (s # rest) u)) = Inr []"
  shows "main_with fetch (s # rest) u
           = (Inr (), py_print ''No data fetched.''
                        (snd (fetch_loop fetch (s # rest) [] (loop_start (s # rest) u))))"
proof -
  let ?w0 = "py_print (''Fetching data for '' @ str_nat (length (s # rest)) @ '' seasons from ''
                       @ s @ '' to '' @ last (s # rest)) u"
  obtain w1 where l: "fetch_loop fetch (s # rest) [] ?w0 = (Inr [], w1)"
    using assms unfolding loop_start_Cons
    by (cases "fetch_loop fetch (s # rest) [] ?w0") simp
  from main_with_no_data [OF l] l show ?thesis
    unfolding loop_start_Cons by simp
qed

text \<open>
  C4. For every fetcher and every list of seasons, when no call raises: the loop skips a
  season whose table is empty and, for each non-empty table, writes the season into its
  \<open>season\<close> column and appends it, so the accumulation list is the stamped non-empty
  tables in the order of the calls. When that list is not empty, \<open>main\<close> binds
  \<open>combined_df\<close> to their concatenation (line 65), and this table is the in-order
  concatenation of exactly these tables: its columns are the columns of the tables (each
  with its \<open>season\<close> column) in the order of first appearance; its index is
  \<open>0, ..., n - 1\<close>; its rows are, table after table and row after row, the cells of
  the source row under each column, the season of the table under \<open>season\<close>, and NaN
  where the table has no such column; so it has as many rows as the tables together and
  its \<open>season\<close> column repeats each table's season once per row. When the list is
  empty, \<open>main\<close> prints \<open>No data fetched.\<close> and binds nothing.
\<close>

theorem aggregation_keeps_nonempty:
  assumes "length (fetched fetch ss w) = length ss"
  shows "fst (fetch_loop fetch ss [] w) = Inr (stamped (fetched fetch ss w))
         \<and> (stamped (fetched fetch ss w) \<noteq> [] \<longrightarrow>
              (\<exists>df. pd_concat (stamped (fetched fetch ss w)) = Inr df
                 \<and> (w = loop_start ss u \<longrightarrow>
                      fst (main_with fetch ss u) = Inr ()
                      \<and> read_combined_df (snd (main_with fetch ss u)) = Inr df)
                 \<and> columns df
                     = rev (remdups (rev (concat
                         (map (\<lambda>r. if ''season'' \<in> set (columns (snd r)) then columns (snd r)
                                    else columns (snd r) @ [''season''])
                              (kept (fetched fetch ss w))))))
                 \<and> index df = [0..<nrows df]
                 \<and> rows df
                     = zip [0..<nrows df]
                         (concat (map (\<lambda>r. map (\<lambda>row. map (\<lambda>c. if c = ''season'' then Str (fst r)
                                                                else cell_at (columns (snd r)) (snd row) c)
                                                          (columns df))
                                               (rows (snd r)))
                                      (kept (fetched fetch ss w))))
                 \<and> nrows df = sum_list (map (\<lambda>r. nrows (snd r)) (kept (fetched fetch ss w)))
                 \<and> column df ''season''
                     = Inr (concat (map (\<lambda>r. replicate (nrows (snd r)) (Str (fst r)))
                                        (kept (fetched fetch ss w))))
                 \<and> (\<forall>c. c \<in> set (columns df) \<longrightarrow>
                      column df c
                        = Inr (concat (map (\<lambda>r. map (\<lambda>row. if c = ''season'' then Str (fst r)
                                                            else cell_at (columns (snd r)) (snd row) c)
                                                    (rows (snd r)))
                                           (kept (fetched fetch ss w)))))))
         \<and> (stamped (fetched fetch ss w) = [] \<and> ss \<noteq> [] \<and> w = loop_start ss u \<longrightarrow>
              main_with fetch ss u
                = (Inr (), py_print ''No data fetched.'' (snd (fetch_loop fetch ss [] w))))"
proof (intro conjI impI)
  show loop: "fst (fetch_loop fetch ss [] w) = Inr (stamped (fetched fetch ss w))"
    using fetch_loop_fetched [OF assms, of "[]"] by simp
  {
    assume e: "stamped (fetched fetch ss w) = [] \<and> ss \<noteq> [] \<and> w = loop_start ss u"
    then obtain s rest where ss: "ss = s # rest"
      by (cases ss) auto
    from e have em: "stamped (fetched fetch ss w) = []"
      by blast
    from e have w: "w = loop_start ss u"
      by blast
    have "fst (fetch_loop fetch ss [] w) = Inr []"
      using loop by (simp only: em)
    then have "fst (fetch_loop fetch (s # rest) [] (loop_start (s # rest) u)) = Inr []"
      by (simp only: w ss)
    from main_with_binds_nothing [OF this]
    show "main_with fetch ss u
            = (Inr (), py_print ''No data fetched.'' (snd (fetch_loop fetch ss [] w)))"
      by (simp only: w ss)
  }
  assume ne: "stamped (fetched fetch ss w) \<noteq> []"
  then obtain df where df: "pd_concat (stamped (fetched fetch ss w)) = Inr df"
    using pd_concat_total by blast
  have m: "fst (main_with fetch ss u) = Inr ()
           \<and> read_combined_df (snd (main_with fetch ss u)) = Inr df" if w: "w = loop_start ss u"
  proof -
    from ne obtain f fs where st: "stamped (fetched fetch ss w) = f # fs"
      by (cases "stamped (fetched fetch ss w)") auto
    from ne obtain s rest where ss: "ss = s # rest"
      by (cases ss) (auto simp: stamped_def kept_def)
    have "fst (fetch_loop fetch ss [] w) = Inr (f # fs)"
      using loop by (simp only: st)
    then have "fst (fetch_loop fetch (s # rest) [] (loop_start (s # rest) u)) = Inr (f # fs)"
      by (simp only: w ss)
    moreover have "pd_concat (f # fs) = Inr df"
      using df by (simp only: st)
    ultimately show ?thesis
      unfolding ss by (rule main_with_binds)
  qed
  have n: "nrows df = sum_list (map (\<lambda>r. nrows (snd r)) (kept (fetched fetch ss w)))"
    by (simp only: pd_concat_nrows [OF df] stamped_nrows)
  have "column df ''season''
          = Inr (concat (map (\<lambda>r. map (\<lambda>row. Str (fst r)) (rows (snd r)))
                             (kept (fetched fetch ss w))))"
    using stamped_column [OF df stamped_has_season [OF df]] by simp
  then have s: "column df ''season''
          = Inr (concat (map (\<lambda>r. replicate (nrows (snd r)) (Str (fst r)))
                             (kept (fetched fetch ss w))))"
    by (simp add: map_replicate_const nrows_def)
  from df m n s stamped_column [OF df] stamped_concat_shape [OF df] pd_concat_index [OF df]
  show "\<exists>df. pd_concat (stamped (fetched fetch ss w)) = Inr df
          \<and> (w = loop_start ss u \<longrightarrow>
               fst (main_with fetch ss u) = Inr ()
               \<and> read_combined_df (snd (main_with fetch ss u)) = Inr df)
          \<and> columns df
              = rev (remdups (rev (concat
                  (map (\<lambda>r. if ''season'' \<in> set (columns (snd r)) then columns (snd r)
                             else columns (snd r) @ [''season''])
                       (kept (fetched fetch ss w))))))
          \<and> index df = [0..<nrows df]
          \<and> rows df
              = zip [0..<nrows df]
                  (concat (map (\<lambda>r. map (\<lambda>row. map (\<lambda>c. if c = ''season'' then Str (fst r)
                                                         else cell_at (columns (snd r)) (snd row) c)
                                                   (columns df))
                                        (rows (snd r)))
                               (kept (fetched fetch ss w))))
          \<and> nrows df = sum_list (map (\<lambda>r. nrows (snd r)) (kept (fetched fetch ss w)))
          \<and> column df ''season''
              = Inr (concat (map (\<lambda>r. replicate (nrows (snd r)) (Str (fst r)))
                                 (kept (fetched fetch ss w))))
          \<and> (\<forall>c. c \<in> set (columns df) \<longrightarrow>
               column df c
                 = Inr (concat (map (\<lambda>r. map (\<lambda>row. if c = ''season'' then Str (fst r)
                                                     else cell_at (columns (snd r)) (snd row) c)
                                             (rows (snd r)))
                                    (kept (fetched fetch ss w)))))"
    by blast
qed

lemma demo_fetched_banner:
  "fetched fetch_nba_team_stats [''2023-24'', ''2022-23''] (py_print b demo_world)
     = [(''2023-24'', three_teams\<lparr>columns := [''team_name'', ''gp'', ''pts'', ''fg3m'', ''fg3a'']\<rparr>),
        (''2022-23'', empty_frame)]"
  by (simp add: fetch_eval demo_world_def three_teams_lowered)

theorem aggregation_keeps_nonempty_witness:
  "fst (fetch_loop fetch_nba_team_stats [''2023-24'', ''2022-23''] []
          (loop_start [''2023-24'', ''2022-23''] demo_world))
     = Inr [setitem (three_teams\<lparr>columns := [''team_name'', ''gp'', ''pts'', ''fg3m'', ''fg3a'']\<rparr>)
              ''season'' (Str ''2023-24'')]
   \<and> fst (main_with fetch_nba_team_stats [''2023-24'', ''2022-23''] demo_world) = Inr ()
   \<and> read_combined_df (snd (main_with fetch_nba_team_stats [''2023-24'', ''2022-23''] demo_world))
       = Inr demo_combined
   \<and> columns demo_combined = [''team_name'', ''gp'', ''pts'', ''fg3m'', ''fg3a'', ''season'']
   \<and> nrows demo_combined = 3
   \<and> index demo_combined = [0, 1, 2]
   \<and> column demo_combined ''season'' = Inr [Str ''2023-24'', Str ''2023-24'', Str ''2023-24'']"
proof -
  let ?ss = "[''2023-24'', ''2022-23'']"
  let ?w = "loop_start ?ss demo_world"
  let ?t = "three_teams\<lparr>columns := [''team_name'', ''gp'', ''pts'', ''fg3m'', ''fg3a'']\<rparr>"
  have f: "fetched fetch_nba_team_stats ?ss ?w = [(''2023-24'', ?t), (''2022-23'', empty_frame)]"
    unfolding loop_start_Cons by (rule demo_fetched_banner)
  have len: "length (fetched fetch_nba_team_stats ?ss ?w) = length ?ss"
    unfolding f by simp
  have st: "stamped (fetched fetch_nba_team_stats ?ss ?w) = [setitem ?t ''season'' (Str ''2023-24'')]"
    unfolding f by (rule demo_stamped)
  have ne: "[setitem ?t ''season'' (Str ''2023-24'')] \<noteq> []"
    by simp
  note T = aggregation_keeps_nonempty [OF len, where u = demo_world, unfolded st]
  from T ne obtain df where df: "pd_concat [setitem ?t ''season'' (Str ''2023-24'')] = Inr df"
    and m: "fst (main_with fetch_nba_team_stats ?ss demo_world) = Inr ()"
           "read_combined_df (snd (main_with fetch_nba_team_stats ?ss demo_world)) = Inr df"
    by blast
  from df have eq: "df = demo_combined"
    by (simp add: demo_concat)
  from T have loop: "fst (fetch_loop fetch_nba_team_stats ?ss [] ?w)
                       = Inr [setitem ?t ''season'' (Str ''2023-24'')]"
    by blast
  have shape: "columns demo_combined = [''team_name'', ''gp'', ''pts'', ''fg3m'', ''fg3a'', ''season'']"
    "nrows demo_combined = 3" "index demo_combined = [0, 1, 2]"
    "column demo_combined ''season'' = Inr [Str ''2023-24'', Str ''2023-24'', Str ''2023-24'']"
    by (simp_all add: demo_combined_def nrows_def index_def column_def cell_at_def)
  from loop m eq shape show ?thesis
    by blast
qed

end
